theory Spec2Isabelle
  imports Main "HOL-Library.Sublist"
begin

section \<open>Go strings, as lists of bytes\<close>

text \<open>
  A Go string is a sequence of bytes; \<^typ>\<open>string\<close> is a list of 8-bit characters, so a
  string literal of the source that holds an emoji is the list of its UTF-8 bytes.
\<close>

definition cross_mark :: string where
  "cross_mark = [CHR 0xE2, CHR 0x9D, CHR 0x8C]"

definition check_mark :: string where
  "check_mark = [CHR 0xE2, CHR 0x9C, CHR 0x85]"

definition pencil :: string where
  "pencil = [CHR 0xE2, CHR 0x9C, CHR 0x8F, CHR 0xEF, CHR 0xB8, CHR 0x8F]"

definition memo :: string where
  "memo = [CHR 0xF0, CHR 0x9F, CHR 0x93, CHR 0x9D]"

definition clipboard :: string where
  "clipboard = [CHR 0xF0, CHR 0x9F, CHR 0x93, CHR 0x8B]"

definition wastebasket :: string where
  "wastebasket = [CHR 0xF0, CHR 0x9F, CHR 0x97, CHR 0x91, CHR 0xEF, CHR 0xB8, CHR 0x8F]"

definition test_tube :: string where
  "test_tube = [CHR 0xF0, CHR 0x9F, CHR 0xA7, CHR 0xAA]"

definition bullet :: string where
  "bullet = [CHR 0xE2, CHR 0x80, CHR 0xA2]"

definition newline :: char where
  "newline = CHR 0x0A"

subsection \<open>strings.TrimSpace\<close>

text \<open>
  \<open>strings.TrimSpace\<close> removes leading and trailing white space as Unicode defines it
  (\<open>unicode.IsSpace\<close>): the six ASCII characters tab, line feed, vertical tab, form feed,
  carriage return and space, U+0085, U+00A0, U+1680, U+2000 to U+200A, U+2028, U+2029,
  U+202F, U+205F and U+3000. On bytes these are the following encodings; a byte sequence
  that is not valid UTF-8 decodes to U+FFFD, which is not white space.
\<close>

definition space_runes :: "string list" where
  "space_runes =
     [[CHR 0x09], [CHR 0x0A], [CHR 0x0B], [CHR 0x0C], [CHR 0x0D], [CHR 0x20],
      [CHR 0xC2, CHR 0x85], [CHR 0xC2, CHR 0xA0],
      [CHR 0xE1, CHR 0x9A, CHR 0x80],
      [CHR 0xE2, CHR 0x80, CHR 0x80], [CHR 0xE2, CHR 0x80, CHR 0x81],
      [CHR 0xE2, CHR 0x80, CHR 0x82], [CHR 0xE2, CHR 0x80, CHR 0x83],
      [CHR 0xE2, CHR 0x80, CHR 0x84], [CHR 0xE2, CHR 0x80, CHR 0x85],
      [CHR 0xE2, CHR 0x80, CHR 0x86], [CHR 0xE2, CHR 0x80, CHR 0x87],
      [CHR 0xE2, CHR 0x80, CHR 0x88], [CHR 0xE2, CHR 0x80, CHR 0x89],
      [CHR 0xE2, CHR 0x80, CHR 0x8A],
      [CHR 0xE2, CHR 0x80, CHR 0xA8], [CHR 0xE2, CHR 0x80, CHR 0xA9],
      [CHR 0xE2, CHR 0x80, CHR 0xAF],
      [CHR 0xE2, CHR 0x81, CHR 0x9F],
      [CHR 0xE3, CHR 0x80, CHR 0x80]]"

definition leading_space :: "string \<Rightarrow> nat" where
  "leading_space s =
     (case find (\<lambda>t. prefix t s) space_runes of None \<Rightarrow> 0 | Some t \<Rightarrow> length t)"

definition trailing_space :: "string \<Rightarrow> nat" where
  "trailing_space s =
     (case find (\<lambda>t. suffix t s) space_runes of None \<Rightarrow> 0 | Some t \<Rightarrow> length t)"

lemma space_runes_nonempty: "t \<in> set space_runes \<Longrightarrow> 0 < length t"
  unfolding space_runes_def by auto

lemma leading_space_le: "leading_space s \<le> length s"
  unfolding leading_space_def
  by (auto split: option.splits dest!: find_Some_iff[THEN iffD1] simp: prefix_def)

lemma trailing_space_le: "trailing_space s \<le> length s"
  unfolding trailing_space_def
  by (auto split: option.splits dest!: find_Some_iff[THEN iffD1] simp: suffix_def)

lemma leading_space_empty [simp]: "leading_space [] = 0"
  using leading_space_le [of "[]"] by simp

lemma trailing_space_empty [simp]: "trailing_space [] = 0"
  using trailing_space_le [of "[]"] by simp

function TrimLeft :: "string \<Rightarrow> string" where
  "TrimLeft s = (if leading_space s = 0 then s else TrimLeft (drop (leading_space s) s))"
  by pat_completeness auto
termination
proof (relation "measure length")
  show "wf (measure length)" by simp
next
  fix s :: string
  assume "leading_space s \<noteq> 0"
  moreover have "leading_space s \<le> length s" by (rule leading_space_le)
  ultimately show "(drop (leading_space s) s, s) \<in> measure length" by simp
qed

function TrimRight :: "string \<Rightarrow> string" where
  "TrimRight s =
     (if trailing_space s = 0 then s else TrimRight (take (length s - trailing_space s) s))"
  by pat_completeness auto
termination
proof (relation "measure length")
  show "wf (measure length)" by simp
next
  fix s :: string
  assume "trailing_space s \<noteq> 0"
  moreover have "trailing_space s \<le> length s" by (rule trailing_space_le)
  ultimately show "(take (length s - trailing_space s) s, s) \<in> measure length" by simp
qed

declare TrimLeft.simps [simp del] TrimRight.simps [simp del]

definition TrimSpace :: "string \<Rightarrow> string" where
  "TrimSpace s = TrimRight (TrimLeft s)"

subsection \<open>strconv.Itoa and the verb \<open>%d\<close>\<close>

definition digit_char :: "int \<Rightarrow> char" where
  "digit_char d = ''0123456789'' ! nat d"

function decimal :: "int \<Rightarrow> string" where
  "decimal n = (if n < 10 then [digit_char n] else decimal (n div 10) @ [digit_char (n mod 10)])"
  by pat_completeness auto
termination
  by (relation "measure nat") auto

declare decimal.simps [simp del]

definition Itoa :: "int \<Rightarrow> string" where
  "Itoa i = (if i < 0 then CHR ''-'' # decimal (- i) else decimal i)"

subsection \<open>strconv.Atoi\<close>

text \<open>
  \<open>strconv.Atoi s\<close> is \<open>ParseInt(s, 10, 0)\<close> converted to \<open>int\<close>, here the 64-bit \<open>int\<close>
  of the platforms the service runs on. It returns a value together with an error:
  a syntax error (value 0) for an empty string or a byte that is not a decimal digit after
  the optional sign, a range error (value the largest magnitude of that sign) when the
  number does not fit. \<open>ParseUint\<close> reads the digits left to right in a 64-bit unsigned
  accumulator and stops at the first byte that fails.
\<close>

datatype NumError = ErrSyntax | ErrRange

definition re_digit :: "char \<Rightarrow> bool" where
  "re_digit c \<longleftrightarrow> c \<in> set ''0123456789''"

definition digit_val :: "char \<Rightarrow> int" where
  "digit_val c = of_char c - 48"

definition maxUint64 :: int where
  "maxUint64 = 2 ^ 64 - 1"

fun ParseUint_loop :: "int \<Rightarrow> string \<Rightarrow> int \<times> NumError option" where
  "ParseUint_loop n [] = (n, None)"
| "ParseUint_loop n (c # cs) =
     (if \<not> re_digit c then (0, Some ErrSyntax)
      else if n \<ge> maxUint64 div 10 + 1 then (maxUint64, Some ErrRange)
      else if n * 10 + digit_val c > maxUint64 then (maxUint64, Some ErrRange)
      else ParseUint_loop (n * 10 + digit_val c) cs)"

definition ParseUint :: "string \<Rightarrow> int \<times> NumError option" where
  "ParseUint s = (if s = [] then (0, Some ErrSyntax) else ParseUint_loop 0 s)"

definition ParseInt :: "string \<Rightarrow> int \<times> NumError option" where
  "ParseInt s =
     (if s = [] then (0, Some ErrSyntax)
      else let neg = (hd s = CHR ''-'');
               s1 = (if hd s = CHR ''+'' \<or> hd s = CHR ''-'' then tl s else s)
           in case ParseUint s1 of
                (un, Some ErrSyntax) \<Rightarrow> (0, Some ErrSyntax)
              | (un, _) \<Rightarrow>
                  if \<not> neg \<and> un \<ge> 2 ^ 63 then (2 ^ 63 - 1, Some ErrRange)
                  else if neg \<and> un > 2 ^ 63 then (- (2 ^ 63), Some ErrRange)
                  else (if neg then - un else un, None))"

definition Atoi :: "string \<Rightarrow> int \<times> NumError option" where
  "Atoi s = ParseInt s"

text \<open>The number that a string of decimal digits denotes, read after the digits \<open>n\<close>.\<close>

fun number :: "int \<Rightarrow> string \<Rightarrow> int" where
  "number n [] = n"
| "number n (c # cs) = number (n * 10 + digit_val c) cs"

subsection \<open>The regular expressions of the command grammar\<close>

text \<open>
  Go's \<open>regexp\<close> (RE2 syntax, leftmost-first matching): \<open>\s\<close> is one of tab, line feed,
  form feed, carriage return and space; \<open>\d\<close> is an ASCII digit; \<open>.\<close> is any character
  but line feed; \<open>^\<close> and \<open>$\<close> are the start and the end of the text. Each pattern below
  is anchored at both ends, so a match is a split of the whole text. A greedy \<open>\s+\<close> first
  takes the longest run of white space and gives characters back one at a time while the
  rest of the pattern fails.
\<close>

definition re_space :: "char \<Rightarrow> bool" where
  "re_space c \<longleftrightarrow> c \<in> {CHR 0x09, CHR 0x0A, CHR 0x0C, CHR 0x0D, CHR 0x20}"

text \<open>\<^verbatim>\<open>.+$\<close> matches a text: it is not empty and has no line feed.\<close>

definition dot_plus :: "string \<Rightarrow> bool" where
  "dot_plus x \<longleftrightarrow> x \<noteq> [] \<and> newline \<notin> set x"

text \<open>\<^verbatim>\<open>\s+(.+)$\<close> on the rest of a text: the submatch for the longest run of white space
  that lets \<^verbatim>\<open>(.+)$\<close> match what follows.\<close>

definition spaces_then_rest :: "string \<Rightarrow> string option" where
  "spaces_then_rest r =
     (let k = length (takeWhile re_space r)
      in map_option (\<lambda>j. drop j r) (find (\<lambda>j. dot_plus (drop j r)) (rev [1..<Suc k])))"

text \<open>\<^verbatim>\<open>^add\s+(.+)$\<close>: the first submatch of the match, \<open>None\<close> when the text does not match.\<close>

definition addCmd :: "string \<Rightarrow> string option" where
  "addCmd text = (if prefix ''add'' text then spaces_then_rest (drop 3 text) else None)"

text \<open>\<^verbatim>\<open>^list$\<close>\<close>

definition listCmd :: "string \<Rightarrow> bool" where
  "listCmd text \<longleftrightarrow> text = ''list''"

text \<open>\<^verbatim>\<open>^done\s+(\d+)$\<close>: the first submatch. A digit is not white space, so the run of
  white space after \<open>done\<close> cannot be split in another way.\<close>

definition doneCmd :: "string \<Rightarrow> string option" where
  "doneCmd text =
     (if prefix ''done'' text
      then let r = drop 4 text; ds = dropWhile re_space r
           in if takeWhile re_space r \<noteq> [] \<and> ds \<noteq> [] \<and> list_all re_digit ds
              then Some ds else None
      else None)"

text \<open>\<^verbatim>\<open>^edit\s+(\d+)\s+(.+)$\<close>: both submatches. The digits end where the white space
  begins, which leaves \<^verbatim>\<open>\s+(.+)$\<close> for the rest.\<close>

definition editCmd :: "string \<Rightarrow> (string \<times> string) option" where
  "editCmd text =
     (if prefix ''edit'' text
      then let r = drop 4 text; r1 = dropWhile re_space r; ds = takeWhile re_digit r1
           in if takeWhile re_space r \<noteq> [] \<and> ds \<noteq> []
              then map_option (Pair ds) (spaces_then_rest (dropWhile re_digit r1))
              else None
      else None)"

text \<open>\<^verbatim>\<open>^test$\<close>\<close>

definition testCmd :: "string \<Rightarrow> bool" where
  "testCmd text \<longleftrightarrow> text = ''test''"

subsection \<open>strings.Join\<close>

fun Join :: "string list \<Rightarrow> string \<Rightarrow> string" where
  "Join [] sep = []"
| "Join [x] sep = x"
| "Join (x # y # ys) sep = x @ sep @ Join (y # ys) sep"

section \<open>The task store\<close>

text \<open>
  The table \<open>tasks(id, content, done, user_id)\<close>. The column \<open>id\<close> is a serial primary
  key: an insert takes the next value of the table's sequence. The SQL statements of the
  source are modelled by what they do to the list of rows, in the order of insertion.
\<close>

record task_row =
  col_id :: int
  col_content :: string
  col_done :: bool
  col_user_id :: string

record database =
  tasks :: "task_row list"
  tasks_id_seq :: int

text \<open>
  A Go \<open>error\<close>: what \<open>sqldb\<close> returns (no row for \<open>QueryRow\<close>, or a failure of the
  storage round trip with its message) and what \<open>fmt.Errorf("...: %w", err)\<close> wraps.
\<close>

datatype error = ErrNoRows | ErrStorage string | Errorf string error

text \<open>
  Whether a storage round trip fails is decided outside the program (the connection, the
  server, the request's deadline). The parameter \<open>ctx\<close> of every function of the source
  stands for that environment: it lists, for the storage round trips of the request in
  the order they are made, the failure of each (\<open>None\<close>: the statement runs). A function
  that has made one round trip passes \<open>tl ctx\<close> on. A statement that fails changes nothing.
\<close>

type_synonym ctx = "string option list"

definition round_trip :: "ctx \<Rightarrow> string option" where
  "round_trip ctx = (case ctx of [] \<Rightarrow> None | f # _ \<Rightarrow> f)"

text \<open>The condition \<open>WHERE id = $1 AND user_id = $2\<close>.\<close>

definition owned :: "int \<Rightarrow> string \<Rightarrow> task_row \<Rightarrow> bool" where
  "owned taskID userID r \<longleftrightarrow> col_id r = taskID \<and> col_user_id r = userID"

text \<open>\<open>INSERT INTO tasks (content, user_id) VALUES ($1, $2) RETURNING id\<close>\<close>

definition INSERT_task :: "ctx \<Rightarrow> string \<Rightarrow> string \<Rightarrow> database \<Rightarrow> (error + int) \<times> database" where
  "INSERT_task ctx content userID db =
     (case round_trip ctx of
        Some msg \<Rightarrow> (Inl (ErrStorage msg), db)
      | None \<Rightarrow>
          (Inr (tasks_id_seq db),
           db\<lparr>tasks := tasks db @
                  [\<lparr>col_id = tasks_id_seq db, col_content = content, col_done = False,
                    col_user_id = userID\<rparr>],
              tasks_id_seq := tasks_id_seq db + 1\<rparr>))"

text \<open>\<open>SELECT id, content, done FROM tasks WHERE user_id = $1 ORDER BY id\<close>, with the scan
  of its rows.\<close>

definition SELECT_tasks :: "ctx \<Rightarrow> string \<Rightarrow> database \<Rightarrow> error + (int \<times> string \<times> bool) list" where
  "SELECT_tasks ctx userID db =
     (case round_trip ctx of
        Some msg \<Rightarrow> Inl (ErrStorage msg)
      | None \<Rightarrow>
          Inr (map (\<lambda>r. (col_id r, col_content r, col_done r))
                 (sort_key col_id (filter (\<lambda>r. col_user_id r = userID) (tasks db)))))"

text \<open>\<open>UPDATE tasks SET done = true WHERE id = $1 AND user_id = $2\<close>, with the number of
  rows affected.\<close>

definition UPDATE_done :: "ctx \<Rightarrow> int \<Rightarrow> string \<Rightarrow> database \<Rightarrow> (error + nat) \<times> database" where
  "UPDATE_done ctx taskID userID db =
     (case round_trip ctx of
        Some msg \<Rightarrow> (Inl (ErrStorage msg), db)
      | None \<Rightarrow>
          (Inr (length (filter (owned taskID userID) (tasks db))),
           db\<lparr>tasks := map (\<lambda>r. if owned taskID userID r then r\<lparr>col_done := True\<rparr> else r)
                          (tasks db)\<rparr>))"

text \<open>\<open>DELETE FROM tasks WHERE id = $1 AND user_id = $2\<close>\<close>

definition DELETE_task :: "ctx \<Rightarrow> int \<Rightarrow> string \<Rightarrow> database \<Rightarrow> (error + nat) \<times> database" where
  "DELETE_task ctx taskID userID db =
     (case round_trip ctx of
        Some msg \<Rightarrow> (Inl (ErrStorage msg), db)
      | None \<Rightarrow>
          (Inr (length (filter (owned taskID userID) (tasks db))),
           db\<lparr>tasks := filter (\<lambda>r. \<not> owned taskID userID r) (tasks db)\<rparr>))"

text \<open>\<open>UPDATE tasks SET content = $1 WHERE id = $2 AND user_id = $3\<close>\<close>

definition UPDATE_content :: "ctx \<Rightarrow> string \<Rightarrow> int \<Rightarrow> string \<Rightarrow> database \<Rightarrow> (error + nat) \<times> database" where
  "UPDATE_content ctx newContent taskID userID db =
     (case round_trip ctx of
        Some msg \<Rightarrow> (Inl (ErrStorage msg), db)
      | None \<Rightarrow>
          (Inr (length (filter (owned taskID userID) (tasks db))),
           db\<lparr>tasks := map (\<lambda>r. if owned taskID userID r then r\<lparr>col_content := newContent\<rparr>
                               else r) (tasks db)\<rparr>))"

text \<open>\<open>SELECT content FROM tasks WHERE id = $1 AND user_id = $2\<close>, scanned as one row.\<close>

definition SELECT_content :: "ctx \<Rightarrow> int \<Rightarrow> string \<Rightarrow> database \<Rightarrow> error + string" where
  "SELECT_content ctx taskID userID db =
     (case round_trip ctx of
        Some msg \<Rightarrow> Inl (ErrStorage msg)
      | None \<Rightarrow>
          (case filter (owned taskID userID) (tasks db) of
             [] \<Rightarrow> Inl ErrNoRows
           | r # _ \<Rightarrow> Inr (col_content r)))"

section \<open>Requests and replies\<close>

record Sender =
  Name :: string
  Email :: string

record Message =
  MessageText :: string
  Sender :: Sender

record Action =
  ActionMethodName :: string
  Parameters :: "(string \<times> string) list"

text \<open>The request of \<open>src/chat/chat.go\<close> has the message only; the later revisions add the
  optional card action.\<close>

record ChatRequest1 =
  Message :: Message

record ChatRequest = ChatRequest1 +
  Action :: "Action option"

record CardAction =
  CardAction_ActionMethodName :: string
  CardAction_Parameters :: "string \<rightharpoonup> string"

record OnClick =
  OnClick_Action :: CardAction

record TextButton =
  TextButton_Text :: string
  OnClick :: OnClick

record Button =
  TextButton :: "TextButton option"

record ButtonList =
  Buttons :: "Button list"

record TextParagraph =
  TextParagraph_Text :: string

type_synonym Divider = unit

record TextInput =
  TextInput_Name :: string
  Label :: string
  Type :: string
  Value :: string
  OnChangeAction :: OnClick

record Widget =
  TextParagraph :: "TextParagraph option"
  ButtonList :: "ButtonList option"
  Divider :: "Divider option"
  TextInput :: "TextInput option"

record CardSection =
  Widgets :: "Widget list"

record CardHeader =
  Title :: string
  Subtitle :: string

record Card =
  Header :: "CardHeader option"
  Sections :: "CardSection list"

record ChatResponse1 =
  Text :: string

record ChatResponse = ChatResponse1 +
  Cards :: "Card list"

text \<open>
  The user identifier: prefer the email, fall back to the name, then to the default.
  The source has these lines at the head of \<open>HandleChat\<close> and of \<open>handleCardAction\<close>:
  \<^verbatim>\<open>userID := "default"\<close>, then \<^verbatim>\<open>if Email != "" { userID = Email }
  else if Name != "" { userID = Name }\<close>.
\<close>

definition userID_of :: "'a ChatRequest1_scheme \<Rightarrow> string" where
  "userID_of req =
     (let userID = ''default''
      in if Email (Sender (Message req)) \<noteq> [] then Email (Sender (Message req))
         else if Name (Sender (Message req)) \<noteq> [] then Name (Sender (Message req))
         else userID)"

text \<open>The replies that several functions of the source build from the same literal.\<close>

definition not_found :: "int \<Rightarrow> string" where
  "not_found taskID =
     cross_mark @ '' Task with ID '' @ Itoa taskID @ '' not found or doesn't belong to you''"

definition no_tasks :: string where
  "no_tasks = memo @ '' No tasks found. Use 'add <task>' to create your first task!''"

definition task_line :: "int \<times> string \<times> bool \<Rightarrow> string" where
  "task_line row =
     (case row of (id', content, done) \<Rightarrow>
        Itoa id' @ ''. '' @ (if done then check_mark else cross_mark) @ '' '' @ content)"

section \<open>Revision 1: \<open>src/chat/chat.go\<close>, plain text replies\<close>

definition addTask_r1 :: "ctx \<Rightarrow> string \<Rightarrow> string \<Rightarrow> database \<Rightarrow> (error + string) \<times> database" where
  "addTask_r1 ctx content userID db =
     (case INSERT_task ctx content userID db of
        (Inl err, db') \<Rightarrow> (Inl err, db')
      | (Inr id', db') \<Rightarrow> (Inr (check_mark @ '' Task added with ID: '' @ Itoa id'), db'))"

definition listTasks_r1 :: "ctx \<Rightarrow> string \<Rightarrow> database \<Rightarrow> error + string" where
  "listTasks_r1 ctx userID db =
     (case SELECT_tasks ctx userID db of
        Inl err \<Rightarrow> Inl err
      | Inr rows \<Rightarrow>
          (let lines = map task_line rows
           in if length lines = 0 then Inr no_tasks
              else Inr (clipboard @ '' Your tasks:'' @ [newline] @ Join lines [newline])))"

definition markTaskDone_r1 :: "ctx \<Rightarrow> int \<Rightarrow> string \<Rightarrow> database \<Rightarrow> (error + string) \<times> database" where
  "markTaskDone_r1 ctx taskID userID db =
     (case UPDATE_done ctx taskID userID db of
        (Inl err, db') \<Rightarrow> (Inl err, db')
      | (Inr rowsAffected, db') \<Rightarrow>
          if rowsAffected = 0 then (Inr (not_found taskID), db')
          else (Inr (check_mark @ '' Task '' @ Itoa taskID @ '' marked as done!''), db'))"

definition help_r1 :: string where
  "help_r1 =
     ''Available commands:'' @ [newline] @
     bullet @ '' add <task> - Add a new task'' @ [newline] @
     bullet @ '' list - List all tasks'' @ [newline] @
     bullet @ '' done <id> - Mark task as done''"

definition HandleChat_r1 ::
  "ctx \<Rightarrow> 'a ChatRequest1_scheme \<Rightarrow> database \<Rightarrow> (error + ChatResponse1) \<times> database" where
  "HandleChat_r1 ctx req db =
     (let text = TrimSpace (MessageText (Message req));
          userID = userID_of req
      in case addCmd text of
           Some m \<Rightarrow>
             (case addTask_r1 ctx (TrimSpace m) userID db of
                (Inl err, db') \<Rightarrow> (Inl (Errorf ''failed to add task'' err), db')
              | (Inr response, db') \<Rightarrow> (Inr \<lparr>Text = response\<rparr>, db'))
         | None \<Rightarrow>
             if listCmd text then
               (case listTasks_r1 ctx userID db of
                  Inl err \<Rightarrow> (Inl (Errorf ''failed to list tasks'' err), db)
                | Inr response \<Rightarrow> (Inr \<lparr>Text = response\<rparr>, db))
             else
               (case doneCmd text of
                  Some m \<Rightarrow>
                    (case markTaskDone_r1 ctx (fst (Atoi m)) userID db of
                       (Inl err, db') \<Rightarrow> (Inl (Errorf ''failed to mark task as done'' err), db')
                     | (Inr response, db') \<Rightarrow> (Inr \<lparr>Text = response\<rparr>, db'))
                | None \<Rightarrow> (Inr \<lparr>Text = help_r1\<rparr>, db)))"

section \<open>The card actions' parameters\<close>

text \<open>
  \<open>handleCardAction\<close> copies the list of key/value parameters into a Go map, a later pair
  replacing an earlier one with the same key; reading a key that is absent gives the
  empty string.
\<close>

definition make_params :: "(string \<times> string) list \<Rightarrow> (string \<rightharpoonup> string)" where
  "make_params ps = fold (\<lambda>param m. m(fst param \<mapsto> snd param)) ps Map.empty"

definition index :: "(string \<rightharpoonup> string) \<Rightarrow> string \<Rightarrow> string" where
  "index params key = (case params key of None \<Rightarrow> [] | Some v \<Rightarrow> v)"

definition text_reply :: "string \<Rightarrow> ChatResponse" where
  "text_reply t = \<lparr>Text = t, Cards = []\<rparr>"

definition invalid_action :: ChatResponse where
  "invalid_action = text_reply (cross_mark @ '' Invalid action'')"

definition invalid_task_id :: ChatResponse where
  "invalid_task_id = text_reply (cross_mark @ '' Invalid task ID'')"

definition unknown_action :: ChatResponse where
  "unknown_action = text_reply (cross_mark @ '' Unknown action'')"

definition empty_content :: ChatResponse where
  "empty_content = text_reply (cross_mark @ '' Task content cannot be empty'')"

section \<open>Revision 2: the first file of \<open>src/unnamed/part_000\<close>, card replies\<close>

definition button :: "string \<Rightarrow> string \<Rightarrow> (string \<rightharpoonup> string) \<Rightarrow> Button" where
  "button label method params =
     \<lparr>TextButton = Some
        \<lparr>TextButton_Text = label,
         OnClick = \<lparr>OnClick_Action =
           \<lparr>CardAction_ActionMethodName = method, CardAction_Parameters = params\<rparr>\<rparr>\<rparr>\<rparr>"

definition text_widget :: "string \<Rightarrow> Widget" where
  "text_widget t =
     \<lparr>TextParagraph = Some \<lparr>TextParagraph_Text = t\<rparr>, ButtonList = None, Divider = None,
      TextInput = None\<rparr>"

definition divider_widget :: Widget where
  "divider_widget = \<lparr>TextParagraph = None, ButtonList = None, Divider = Some (), TextInput = None\<rparr>"

definition buttons_widget :: "Button list \<Rightarrow> Widget" where
  "buttons_widget bs =
     \<lparr>TextParagraph = None, ButtonList = Some \<lparr>Buttons = bs\<rparr>, Divider = None, TextInput = None\<rparr>"

definition input_widget :: "TextInput \<Rightarrow> Widget" where
  "input_widget i = \<lparr>TextParagraph = None, ButtonList = None, Divider = None, TextInput = Some i\<rparr>"

definition showEditForm_r2 :: "ctx \<Rightarrow> int \<Rightarrow> string \<Rightarrow> database \<Rightarrow> error + ChatResponse" where
  "showEditForm_r2 ctx taskID userID db =
     (case SELECT_content ctx taskID userID db of
        Inl err \<Rightarrow> Inr (text_reply (not_found taskID))
      | Inr content \<Rightarrow>
          Inr \<lparr>Text = [], Cards =
            [\<lparr>Header = Some \<lparr>Title = pencil @ '' Edit Task #'' @ Itoa taskID, Subtitle = []\<rparr>,
              Sections =
                [\<lparr>Widgets =
                   [input_widget
                      \<lparr>TextInput_Name = ''content'', Label = ''Task content:'',
                       Type = ''SINGLE_LINE'', Value = content,
                       OnChangeAction = \<lparr>OnClick_Action =
                         \<lparr>CardAction_ActionMethodName = ''editTask'',
                          CardAction_Parameters = [''taskId'' \<mapsto> Itoa taskID]\<rparr>\<rparr>\<rparr>,
                    divider_widget,
                    buttons_widget
                      [button ''Save'' ''editTask'' [''taskId'' \<mapsto> Itoa taskID],
                       button ''Cancel'' ''list'' Map.empty]]\<rparr>]\<rparr>]\<rparr>)"

definition addTask_r2 :: "ctx \<Rightarrow> string \<Rightarrow> string \<Rightarrow> database \<Rightarrow> (error + ChatResponse) \<times> database" where
  "addTask_r2 ctx content userID db =
     (case INSERT_task ctx content userID db of
        (Inl err, db') \<Rightarrow> (Inl err, db')
      | (Inr id', db') \<Rightarrow>
          (Inr \<lparr>Text = [], Cards =
             [\<lparr>Header = Some \<lparr>Title = check_mark @ '' Task Added'',
                              Subtitle = ''Task ID: '' @ Itoa id'\<rparr>,
               Sections =
                 [\<lparr>Widgets =
                    [text_widget content,
                     divider_widget,
                     buttons_widget
                       [button ''Mark as Done'' ''markDone'' [''taskId'' \<mapsto> Itoa id'],
                        button ''Delete'' ''deleteTask'' [''taskId'' \<mapsto> Itoa id']]]\<rparr>]\<rparr>]\<rparr>,
           db'))"

definition createTaskButtons :: "int \<Rightarrow> bool \<Rightarrow> Button list" where
  "createTaskButtons taskID done =
     (let buttons = [];
          buttons = (if \<not> done
                     then buttons @ [button ''Mark as Done'' ''markDone'' [''taskId'' \<mapsto> Itoa taskID]]
                     else buttons);
          buttons = buttons @ [button ''Edit'' ''editTask'' [''taskId'' \<mapsto> Itoa taskID]];
          buttons = buttons @ [button ''Delete'' ''deleteTask'' [''taskId'' \<mapsto> Itoa taskID]]
      in buttons)"

definition task_card :: "int \<times> string \<times> bool \<Rightarrow> Card" where
  "task_card task =
     (case task of (ID, Content, Done) \<Rightarrow>
        \<lparr>Header = Some \<lparr>Title = (if Done then check_mark else cross_mark) @ '' Task #'' @ Itoa ID,
                         Subtitle = []\<rparr>,
         Sections =
           [\<lparr>Widgets =
              [text_widget Content, divider_widget,
               buttons_widget (createTaskButtons ID Done)]\<rparr>]\<rparr>)"

definition listTasks_r2 :: "ctx \<Rightarrow> string \<Rightarrow> database \<Rightarrow> error + ChatResponse" where
  "listTasks_r2 ctx userID db =
     (case SELECT_tasks ctx userID db of
        Inl err \<Rightarrow> Inl err
      | Inr rows \<Rightarrow>
          if length rows = 0 then Inr (text_reply no_tasks)
          else Inr \<lparr>Text = [], Cards = map task_card rows\<rparr>)"

definition markTaskDone_r2 :: "ctx \<Rightarrow> int \<Rightarrow> string \<Rightarrow> database \<Rightarrow> (error + ChatResponse) \<times> database" where
  "markTaskDone_r2 ctx taskID userID db =
     (case UPDATE_done ctx taskID userID db of
        (Inl err, db') \<Rightarrow> (Inl err, db')
      | (Inr rowsAffected, db') \<Rightarrow>
          if rowsAffected = 0 then (Inr (text_reply (not_found taskID)), db')
          else (listTasks_r2 (tl ctx) userID db', db'))"

definition deleteTask_r2 :: "ctx \<Rightarrow> int \<Rightarrow> string \<Rightarrow> database \<Rightarrow> (error + ChatResponse) \<times> database" where
  "deleteTask_r2 ctx taskID userID db =
     (case DELETE_task ctx taskID userID db of
        (Inl err, db') \<Rightarrow> (Inl err, db')
      | (Inr rowsAffected, db') \<Rightarrow>
          if rowsAffected = 0 then (Inr (text_reply (not_found taskID)), db')
          else (listTasks_r2 (tl ctx) userID db', db'))"

definition editTask_r2 ::
  "ctx \<Rightarrow> int \<Rightarrow> string \<Rightarrow> string \<Rightarrow> database \<Rightarrow> (error + ChatResponse) \<times> database" where
  "editTask_r2 ctx taskID newContent userID db =
     (if newContent = [] then (Inr empty_content, db)
      else case UPDATE_content ctx newContent taskID userID db of
             (Inl err, db') \<Rightarrow> (Inl err, db')
           | (Inr rowsAffected, db') \<Rightarrow>
               if rowsAffected = 0 then (Inr (text_reply (not_found taskID)), db')
               else (listTasks_r2 (tl ctx) userID db', db'))"

definition handleCardAction_r2 ::
  "ctx \<Rightarrow> ChatRequest \<Rightarrow> database \<Rightarrow> (error + ChatResponse) \<times> database" where
  "handleCardAction_r2 ctx req db =
     (case Action req of
        None \<Rightarrow> (Inr invalid_action, db)
      | Some action \<Rightarrow>
          (let userID = userID_of req;
               params = make_params (Parameters action)
           in if ActionMethodName action = ''markDone'' then
                (case Atoi (index params ''taskId'') of
                   (taskID, Some err) \<Rightarrow> (Inr invalid_task_id, db)
                 | (taskID, None) \<Rightarrow> markTaskDone_r2 ctx taskID userID db)
              else if ActionMethodName action = ''deleteTask'' then
                (case Atoi (index params ''taskId'') of
                   (taskID, Some err) \<Rightarrow> (Inr invalid_task_id, db)
                 | (taskID, None) \<Rightarrow> deleteTask_r2 ctx taskID userID db)
              else if ActionMethodName action = ''editTask'' then
                (case Atoi (index params ''taskId'') of
                   (taskID, Some err) \<Rightarrow> (Inr invalid_task_id, db)
                 | (taskID, None) \<Rightarrow>
                     (let newContent = index params ''content''
                      in if newContent \<noteq> [] then editTask_r2 ctx taskID newContent userID db
                         else (showEditForm_r2 ctx taskID userID db, db)))
              else if ActionMethodName action = ''list'' then (listTasks_r2 ctx userID db, db)
              else (Inr unknown_action, db)))"

definition HandleCardAction_r2 ::
  "ctx \<Rightarrow> ChatRequest \<Rightarrow> database \<Rightarrow> (error + ChatResponse) \<times> database" where
  "HandleCardAction_r2 ctx req db = handleCardAction_r2 ctx req db"

definition HandleChat_r2 ::
  "ctx \<Rightarrow> ChatRequest \<Rightarrow> database \<Rightarrow> (error + ChatResponse) \<times> database" where
  "HandleChat_r2 ctx req db =
     (if Action req \<noteq> None then handleCardAction_r2 ctx req db
      else
        let text = TrimSpace (MessageText (Message req));
            userID = userID_of req
        in case addCmd text of
             Some m \<Rightarrow>
               (case addTask_r2 ctx (TrimSpace m) userID db of
                  (Inl err, db') \<Rightarrow> (Inl (Errorf ''failed to add task'' err), db')
                | (Inr response, db') \<Rightarrow> (Inr response, db'))
           | None \<Rightarrow>
               if listCmd text then
                 (case listTasks_r2 ctx userID db of
                    Inl err \<Rightarrow> (Inl (Errorf ''failed to list tasks'' err), db)
                  | Inr response \<Rightarrow> (Inr response, db))
               else
                 (case doneCmd text of
                    Some m \<Rightarrow>
                      (case markTaskDone_r2 ctx (fst (Atoi m)) userID db of
                         (Inl err, db') \<Rightarrow> (Inl (Errorf ''failed to mark task as done'' err), db')
                       | (Inr response, db') \<Rightarrow> (Inr response, db'))
                  | None \<Rightarrow> (Inr (text_reply help_r1), db)))"

section \<open>Revision 3: the second file of \<open>src/unnamed/part_000\<close>, text replies and \<open>edit\<close>\<close>

text \<open>This revision declares the card types (without the text input) and builds no card:
  the field \<open>Cards\<close> of each of its replies is empty.\<close>

definition showEditForm_r3 :: "ctx \<Rightarrow> int \<Rightarrow> string \<Rightarrow> database \<Rightarrow> error + ChatResponse" where
  "showEditForm_r3 ctx taskID userID db =
     (case SELECT_content ctx taskID userID db of
        Inl err \<Rightarrow> Inr (text_reply (not_found taskID))
      | Inr content \<Rightarrow>
          Inr (text_reply
            (pencil @ '' Edit Task #'' @ Itoa taskID @ [newline] @
             ''Current content: '' @ content @ [newline, newline] @
             ''To edit this task, use the command:'' @ [newline] @
             ''edit '' @ Itoa taskID @ '' <new content>'')))"

definition addTask_r3 :: "ctx \<Rightarrow> string \<Rightarrow> string \<Rightarrow> database \<Rightarrow> (error + ChatResponse) \<times> database" where
  "addTask_r3 ctx content userID db =
     (case INSERT_task ctx content userID db of
        (Inl err, db') \<Rightarrow> (Inl err, db')
      | (Inr id', db') \<Rightarrow>
          (Inr (text_reply (check_mark @ '' Task added with ID: '' @ Itoa id' @ [newline] @
                            ''Content: '' @ content)), db'))"

definition listTasks_r3 :: "ctx \<Rightarrow> string \<Rightarrow> database \<Rightarrow> error + ChatResponse" where
  "listTasks_r3 ctx userID db =
     (case SELECT_tasks ctx userID db of
        Inl err \<Rightarrow> Inl err
      | Inr rows \<Rightarrow>
          (let lines = map task_line rows
           in if length lines = 0 then Inr (text_reply no_tasks)
              else Inr (text_reply
                     (clipboard @ '' Your tasks:'' @ [newline] @ Join lines [newline]))))"

definition markTaskDone_r3 :: "ctx \<Rightarrow> int \<Rightarrow> string \<Rightarrow> database \<Rightarrow> (error + ChatResponse) \<times> database" where
  "markTaskDone_r3 ctx taskID userID db =
     (case UPDATE_done ctx taskID userID db of
        (Inl err, db') \<Rightarrow> (Inl err, db')
      | (Inr rowsAffected, db') \<Rightarrow>
          if rowsAffected = 0 then (Inr (text_reply (not_found taskID)), db')
          else (Inr (text_reply (check_mark @ '' Task '' @ Itoa taskID @ '' marked as done!'')),
                db'))"

definition deleteTask_r3 :: "ctx \<Rightarrow> int \<Rightarrow> string \<Rightarrow> database \<Rightarrow> (error + ChatResponse) \<times> database" where
  "deleteTask_r3 ctx taskID userID db =
     (case DELETE_task ctx taskID userID db of
        (Inl err, db') \<Rightarrow> (Inl err, db')
      | (Inr rowsAffected, db') \<Rightarrow>
          if rowsAffected = 0 then (Inr (text_reply (not_found taskID)), db')
          else (Inr (text_reply (wastebasket @ '' Task '' @ Itoa taskID @ '' deleted!'')), db'))"

definition editTask_r3 ::
  "ctx \<Rightarrow> int \<Rightarrow> string \<Rightarrow> string \<Rightarrow> database \<Rightarrow> (error + ChatResponse) \<times> database" where
  "editTask_r3 ctx taskID newContent userID db =
     (if newContent = [] then (Inr empty_content, db)
      else case UPDATE_content ctx newContent taskID userID db of
             (Inl err, db') \<Rightarrow> (Inl err, db')
           | (Inr rowsAffected, db') \<Rightarrow>
               if rowsAffected = 0 then (Inr (text_reply (not_found taskID)), db')
               else (Inr (text_reply (pencil @ '' Task '' @ Itoa taskID @ '' updated to: '' @
                                      newContent)), db'))"

definition handleCardAction_r3 ::
  "ctx \<Rightarrow> ChatRequest \<Rightarrow> database \<Rightarrow> (error + ChatResponse) \<times> database" where
  "handleCardAction_r3 ctx req db =
     (case Action req of
        None \<Rightarrow> (Inr invalid_action, db)
      | Some action \<Rightarrow>
          (let userID = userID_of req;
               params = make_params (Parameters action)
           in if ActionMethodName action = ''markDone'' then
                (case Atoi (index params ''taskId'') of
                   (taskID, Some err) \<Rightarrow> (Inr invalid_task_id, db)
                 | (taskID, None) \<Rightarrow> markTaskDone_r3 ctx taskID userID db)
              else if ActionMethodName action = ''deleteTask'' then
                (case Atoi (index params ''taskId'') of
                   (taskID, Some err) \<Rightarrow> (Inr invalid_task_id, db)
                 | (taskID, None) \<Rightarrow> deleteTask_r3 ctx taskID userID db)
              else if ActionMethodName action = ''editTask'' then
                (case Atoi (index params ''taskId'') of
                   (taskID, Some err) \<Rightarrow> (Inr invalid_task_id, db)
                 | (taskID, None) \<Rightarrow>
                     (let newContent = index params ''content''
                      in if newContent \<noteq> [] then editTask_r3 ctx taskID newContent userID db
                         else (showEditForm_r3 ctx taskID userID db, db)))
              else if ActionMethodName action = ''list'' then (listTasks_r3 ctx userID db, db)
              else (Inr unknown_action, db)))"

definition HandleCardAction_r3 ::
  "ctx \<Rightarrow> ChatRequest \<Rightarrow> database \<Rightarrow> (error + ChatResponse) \<times> database" where
  "HandleCardAction_r3 ctx req db = handleCardAction_r3 ctx req db"

definition test_reply :: string where
  "test_reply = test_tube @ '' Test command working! The bot is responding correctly.''"

definition help_r3 :: string where
  "help_r3 =
     ''Available commands:'' @ [newline] @
     bullet @ '' add <task> - Add a new task'' @ [newline] @
     bullet @ '' list - List all tasks'' @ [newline] @
     bullet @ '' done <id> - Mark task as done'' @ [newline] @
     bullet @ '' edit <id> <new content> - Edit a task'' @ [newline] @
     bullet @ '' test - Test bot functionality''"

definition HandleChat_r3 ::
  "ctx \<Rightarrow> ChatRequest \<Rightarrow> database \<Rightarrow> (error + ChatResponse) \<times> database" where
  "HandleChat_r3 ctx req db =
     (if Action req \<noteq> None then handleCardAction_r3 ctx req db
      else
        let text = TrimSpace (MessageText (Message req));
            userID = userID_of req
        in case addCmd text of
             Some m \<Rightarrow>
               (case addTask_r3 ctx (TrimSpace m) userID db of
                  (Inl err, db') \<Rightarrow> (Inl (Errorf ''failed to add task'' err), db')
                | (Inr response, db') \<Rightarrow> (Inr response, db'))
           | None \<Rightarrow>
               if listCmd text then
                 (case listTasks_r3 ctx userID db of
                    Inl err \<Rightarrow> (Inl (Errorf ''failed to list tasks'' err), db)
                  | Inr response \<Rightarrow> (Inr response, db))
               else
                 (case doneCmd text of
                    Some m \<Rightarrow>
                      (case markTaskDone_r3 ctx (fst (Atoi m)) userID db of
                         (Inl err, db') \<Rightarrow> (Inl (Errorf ''failed to mark task as done'' err), db')
                       | (Inr response, db') \<Rightarrow> (Inr response, db'))
                  | None \<Rightarrow>
                      (case editCmd text of
                         Some (m1, m2) \<Rightarrow>
                           (case editTask_r3 ctx (fst (Atoi m1)) (TrimSpace m2) userID db of
                              (Inl err, db') \<Rightarrow> (Inl (Errorf ''failed to edit task'' err), db')
                            | (Inr response, db') \<Rightarrow> (Inr response, db'))
                       | None \<Rightarrow>
                           if testCmd text then (Inr (text_reply test_reply), db)
                           else (Inr (text_reply help_r3), db))))"

section \<open>The command parser, as the specification names it\<close>

text \<open>
  The specification describes the \<open>switch\<close> of \<open>HandleChat\<close> as a parser that classifies
  the trimmed text into an intent, followed by the execution of that intent. The source
  has no such types or functions; the definitions below split the \<open>switch\<close> of each
  revision in that way, and the properties show that the split is the handler.
\<close>

datatype intent = Add string | List | Done int | Edit int string | Test | Help

definition classify_r1 :: "string \<Rightarrow> intent" where
  "classify_r1 text =
     (case addCmd text of
        Some m \<Rightarrow> Add (TrimSpace m)
      | None \<Rightarrow>
          if listCmd text then List
          else case doneCmd text of
                 Some m \<Rightarrow> Done (fst (Atoi m))
               | None \<Rightarrow> Help)"

definition classify_r3 :: "string \<Rightarrow> intent" where
  "classify_r3 text =
     (case addCmd text of
        Some m \<Rightarrow> Add (TrimSpace m)
      | None \<Rightarrow>
          if listCmd text then List
          else case doneCmd text of
                 Some m \<Rightarrow> Done (fst (Atoi m))
               | None \<Rightarrow>
                   (case editCmd text of
                      Some (m1, m2) \<Rightarrow> Edit (fst (Atoi m1)) (TrimSpace m2)
                    | None \<Rightarrow> if testCmd text then Test else Help))"

definition wrap :: "string \<Rightarrow> (error + 'a) \<times> database \<Rightarrow> (error + 'a) \<times> database" where
  "wrap what result =
     (case result of (Inl err, db') \<Rightarrow> (Inl (Errorf what err), db') | (Inr response, db') \<Rightarrow> (Inr response, db'))"

definition wrap_text :: "string \<Rightarrow> (error + string) \<times> database \<Rightarrow> (error + ChatResponse1) \<times> database" where
  "wrap_text what result =
     (case result of
        (Inl err, db') \<Rightarrow> (Inl (Errorf what err), db')
      | (Inr response, db') \<Rightarrow> (Inr \<lparr>Text = response\<rparr>, db'))"

definition run_r1 :: "ctx \<Rightarrow> intent \<Rightarrow> string \<Rightarrow> database \<Rightarrow> (error + ChatResponse1) \<times> database" where
  "run_r1 ctx i userID db =
     (case i of
        Add content \<Rightarrow> wrap_text ''failed to add task'' (addTask_r1 ctx content userID db)
      | List \<Rightarrow> wrap_text ''failed to list tasks'' (listTasks_r1 ctx userID db, db)
      | Done taskID \<Rightarrow>
          wrap_text ''failed to mark task as done'' (markTaskDone_r1 ctx taskID userID db)
      | _ \<Rightarrow> (Inr \<lparr>Text = help_r1\<rparr>, db))"

definition run_r2 :: "ctx \<Rightarrow> intent \<Rightarrow> string \<Rightarrow> database \<Rightarrow> (error + ChatResponse) \<times> database" where
  "run_r2 ctx i userID db =
     (case i of
        Add content \<Rightarrow> wrap ''failed to add task'' (addTask_r2 ctx content userID db)
      | List \<Rightarrow> wrap ''failed to list tasks'' (listTasks_r2 ctx userID db, db)
      | Done taskID \<Rightarrow> wrap ''failed to mark task as done'' (markTaskDone_r2 ctx taskID userID db)
      | _ \<Rightarrow> (Inr (text_reply help_r1), db))"

definition run_r3 :: "ctx \<Rightarrow> intent \<Rightarrow> string \<Rightarrow> database \<Rightarrow> (error + ChatResponse) \<times> database" where
  "run_r3 ctx i userID db =
     (case i of
        Add content \<Rightarrow> wrap ''failed to add task'' (addTask_r3 ctx content userID db)
      | List \<Rightarrow> wrap ''failed to list tasks'' (listTasks_r3 ctx userID db, db)
      | Done taskID \<Rightarrow> wrap ''failed to mark task as done'' (markTaskDone_r3 ctx taskID userID db)
      | Edit taskID content \<Rightarrow>
          wrap ''failed to edit task'' (editTask_r3 ctx taskID content userID db)
      | Test \<Rightarrow> (Inr (text_reply test_reply), db)
      | Help \<Rightarrow> (Inr (text_reply help_r3), db))"

section \<open>Owners and the rows they may touch\<close>

text \<open>
  The rows of a user and the rows of everybody else. An operation invoked for the user
  \<open>u\<close> is scoped to its owner when it returns the rows of everybody else as they were,
  and when its reply and what it does to the rows of \<open>u\<close> and to the id sequence are the
  same in any two stores that agree on the rows of \<open>u\<close> and on the id sequence: nothing
  it returns or writes depends on a row of another owner.
\<close>

definition own_rows :: "string \<Rightarrow> database \<Rightarrow> task_row list" where
  "own_rows u db = filter (\<lambda>r. col_user_id r = u) (tasks db)"

definition foreign_rows :: "string \<Rightarrow> database \<Rightarrow> task_row list" where
  "foreign_rows u db = filter (\<lambda>r. col_user_id r \<noteq> u) (tasks db)"

definition owner_scoped :: "string \<Rightarrow> (database \<Rightarrow> 'a \<times> database) \<Rightarrow> bool" where
  "owner_scoped u f \<longleftrightarrow>
     (\<forall>db. foreign_rows u (snd (f db)) = foreign_rows u db) \<and>
     (\<forall>db db'. own_rows u db = own_rows u db' \<and> tasks_id_seq db = tasks_id_seq db' \<longrightarrow>
        fst (f db) = fst (f db') \<and>
        own_rows u (snd (f db)) = own_rows u (snd (f db')) \<and>
        tasks_id_seq (snd (f db)) = tasks_id_seq (snd (f db')))"

text \<open>The primary key: ids are unique, and the sequence is ahead of every id in use.\<close>

definition well_formed :: "database \<Rightarrow> bool" where
  "well_formed db \<longleftrightarrow>
     distinct (map col_id (tasks db)) \<and> (\<forall>r \<in> set (tasks db). col_id r < tasks_id_seq db)"

section \<open>What a reader of a reply sees\<close>

text \<open>What a button shows and sends when clicked: its label, the name of its action, and
  the value of the action's parameter \<open>taskId\<close>.\<close>

definition button_summary :: "Button \<Rightarrow> (string \<times> string \<times> string option) option" where
  "button_summary b =
     map_option (\<lambda>tb. (TextButton_Text tb,
                       CardAction_ActionMethodName (OnClick_Action (OnClick tb)),
                       CardAction_Parameters (OnClick_Action (OnClick tb)) ''taskId''))
       (TextButton b)"

section \<open>Example requests and an example store\<close>

definition example_db :: database where
  "example_db =
     \<lparr>tasks =
        [\<lparr>col_id = 1, col_content = ''Buy milk'', col_done = False, col_user_id = ''ann@example.com''\<rparr>,
         \<lparr>col_id = 2, col_content = ''Call Bob'', col_done = True, col_user_id = ''bob''\<rparr>],
      tasks_id_seq = 4\<rparr>"

definition example_db2 :: database where
  "example_db2 =
     \<lparr>tasks =
        [\<lparr>col_id = 1, col_content = ''Buy tea'', col_done = True, col_user_id = ''ann@example.com''\<rparr>,
         \<lparr>col_id = 2, col_content = ''Call Bob'', col_done = True, col_user_id = ''bob''\<rparr>,
         \<lparr>col_id = 3, col_content = ''Walk'', col_done = False, col_user_id = ''carol''\<rparr>],
      tasks_id_seq = 4\<rparr>"

definition click :: "string \<Rightarrow> string \<Rightarrow> string \<Rightarrow> (string \<times> string) list \<Rightarrow> ChatRequest" where
  "click name email method ps =
     \<lparr>Message = \<lparr>MessageText = [], Sender = \<lparr>Name = name, Email = email\<rparr>\<rparr>,
      Action = Some \<lparr>ActionMethodName = method, Parameters = ps\<rparr>\<rparr>"

definition say :: "string \<Rightarrow> string \<Rightarrow> string \<Rightarrow> ChatRequest" where
  "say name email t =
     \<lparr>Message = \<lparr>MessageText = t, Sender = \<lparr>Name = name, Email = email\<rparr>\<rparr>, Action = None\<rparr>"

section \<open>Properties\<close>

lemmas atoi_defs = Atoi_def ParseInt_def ParseUint_def re_digit_def digit_val_def maxUint64_def

lemmas trim_defs = TrimSpace_def TrimLeft.simps TrimRight.simps leading_space_def
  trailing_space_def space_runes_def suffix_to_prefix

lemmas cmd_defs = addCmd_def listCmd_def doneCmd_def editCmd_def testCmd_def spaces_then_rest_def
  dot_plus_def re_space_def re_digit_def newline_def

lemmas itoa_defs = Itoa_def decimal.simps digit_char_def

text \<open>
  C2. Edit with empty new content returns the rejection reply and leaves the store as it
  was, in both revisions that have \<open>editTask\<close>. The equation holds for every \<open>ctx\<close>, also
  one whose storage round trips all fail: the check comes before any storage access.
\<close>

theorem C2_edit_empty_content_rejected:
  "editTask_r2 ctx taskID [] userID db = (Inr empty_content, db) \<and>
   editTask_r3 ctx taskID [] userID db = (Inr empty_content, db) \<and>
   Text empty_content = cross_mark @ '' Task content cannot be empty''"
  by (simp add: editTask_r2_def editTask_r3_def empty_content_def text_reply_def)

text \<open>
  C4. The user identifier is the sender's email when that is not empty, otherwise the
  sender's name when that is not empty, otherwise \<open>default\<close>; it is never empty; and it is
  the owner the dispatcher hands to the store (shown for the \<open>list\<close> action).
\<close>

theorem C4_owner_resolution:
  "(Email (Sender (Message req)) \<noteq> [] \<longrightarrow> userID_of req = Email (Sender (Message req))) \<and>
   (Email (Sender (Message req)) = [] \<and> Name (Sender (Message req)) \<noteq> [] \<longrightarrow>
      userID_of req = Name (Sender (Message req))) \<and>
   (Email (Sender (Message req)) = [] \<and> Name (Sender (Message req)) = [] \<longrightarrow>
      userID_of req = ''default'') \<and>
   userID_of req \<noteq> [] \<and>
   (Action rq = Some action \<and> ActionMethodName action = ''list'' \<longrightarrow>
      handleCardAction_r2 ctx rq db = (listTasks_r2 ctx (userID_of rq) db, db))"
  by (auto simp: userID_of_def handleCardAction_r2_def Let_def)

theorem C4_owner_resolution_witness:
  "userID_of (say ''Ann'' ''ann@example.com'' ''list'') = ''ann@example.com'' \<and>
   userID_of (say ''Ann'' [] ''list'') = ''Ann'' \<and>
   userID_of (say [] [] ''list'') = ''default'' \<and>
   handleCardAction_r2 [] (click ''Ann'' [] ''list'' []) example_db =
     (listTasks_r2 [] ''Ann'' example_db, example_db)"
  using C4_owner_resolution [of "say ''Ann'' ''ann@example.com'' ''list''"]
        C4_owner_resolution [of "say ''Ann'' [] ''list''"]
        C4_owner_resolution [of "say [] [] ''list''"]
        C4_owner_resolution [where req = "click ''Ann'' [] ''list'' []" and rq = "click ''Ann'' [] ''list'' []"
          and action = "\<lparr>ActionMethodName = ''list'', Parameters = []\<rparr>" and ctx = "[]" and db = example_db]
  by (simp add: say_def click_def)

text \<open>
  C5. A card action \<open>markDone\<close>, \<open>deleteTask\<close> or \<open>editTask\<close> whose parameter \<open>taskId\<close>
  fails \<open>strconv.Atoi\<close> is answered with the invalid-task-id reply; the store is returned
  as it was, whatever \<open>ctx\<close> says about storage round trips.
\<close>

theorem C5_invalid_task_id:
  assumes "Action req = Some action"
    and "ActionMethodName action \<in> {''markDone'', ''deleteTask'', ''editTask''}"
    and "snd (Atoi (index (make_params (Parameters action)) ''taskId'')) \<noteq> None"
  shows "handleCardAction_r2 ctx req db = (Inr invalid_task_id, db) \<and>
         handleCardAction_r3 ctx req db = (Inr invalid_task_id, db) \<and>
         HandleCardAction_r2 ctx req db = (Inr invalid_task_id, db) \<and>
         HandleCardAction_r3 ctx req db = (Inr invalid_task_id, db) \<and>
         HandleChat_r2 ctx req db = (Inr invalid_task_id, db) \<and>
         HandleChat_r3 ctx req db = (Inr invalid_task_id, db) \<and>
         Text invalid_task_id = cross_mark @ '' Invalid task ID''"
proof -
  obtain v e where a: "Atoi (index (make_params (Parameters action)) ''taskId'') = (v, Some e)"
    using assms(3) by (cases "Atoi (index (make_params (Parameters action)) ''taskId'')") auto
  have r2: "handleCardAction_r2 ctx req db = (Inr invalid_task_id, db)"
    using assms(1,2) a by (auto simp: handleCardAction_r2_def Let_def)
  have r3: "handleCardAction_r3 ctx req db = (Inr invalid_task_id, db)"
    using assms(1,2) a by (auto simp: handleCardAction_r3_def Let_def)
  show ?thesis
    using r2 r3 assms(1)
    by (simp add: HandleCardAction_r2_def HandleCardAction_r3_def HandleChat_r2_def
        HandleChat_r3_def invalid_task_id_def text_reply_def)
qed

theorem C5_invalid_task_id_witness:
  "snd (Atoi (index (make_params [(''taskId'', ''12a'')]) ''taskId'')) = Some ErrSyntax \<and>
   handleCardAction_r2 [] (click ''bob'' [] ''deleteTask'' [(''taskId'', ''12a'')]) example_db =
     (Inr invalid_task_id, example_db) \<and>
   HandleChat_r3 [Some ''connection lost'']
       (click ''bob'' [] ''deleteTask'' [(''taskId'', ''12a'')]) example_db =
     (Inr invalid_task_id, example_db)"
proof -
  let ?a = "\<lparr>ActionMethodName = ''deleteTask'', Parameters = [(''taskId'', ''12a'')]\<rparr>"
  have i: "index (make_params [(''taskId'', ''12a'')]) ''taskId'' = ''12a''"
    by (simp add: make_params_def index_def)
  have a: "Atoi ''12a'' = (0, Some ErrSyntax)"
    by (simp add: atoi_defs)
  note w1 = C5_invalid_task_id [of "click ''bob'' [] ''deleteTask'' [(''taskId'', ''12a'')]" ?a
      "[]" example_db]
  note w2 = C5_invalid_task_id [of "click ''bob'' [] ''deleteTask'' [(''taskId'', ''12a'')]" ?a
      "[Some ''connection lost'']" example_db]
  from w1 w2 i a show ?thesis
    by (simp add: click_def)
qed

text \<open>
  C6. An \<open>editTask\<close> card action whose \<open>taskId\<close> parses: with a parameter \<open>content\<close> that is
  present and not empty the dispatcher calls \<open>editTask\<close> with that content; with \<open>content\<close>
  absent or empty it calls \<open>showEditForm\<close> and returns the store as it was. The form of
  revision 2 is one card whose text input \<open>content\<close> holds what the content query returned.
\<close>

theorem C6_edit_action_dispatch:
  assumes "Action req = Some action"
    and "ActionMethodName action = ''editTask''"
    and "Atoi (index (make_params (Parameters action)) ''taskId'') = (taskID, None)"
  shows "(\<forall>c. make_params (Parameters action) ''content'' = Some c \<and> c \<noteq> [] \<longrightarrow>
            handleCardAction_r2 ctx req db = editTask_r2 ctx taskID c (userID_of req) db \<and>
            handleCardAction_r3 ctx req db = editTask_r3 ctx taskID c (userID_of req) db) \<and>
         (make_params (Parameters action) ''content'' = None \<or>
          make_params (Parameters action) ''content'' = Some [] \<longrightarrow>
            handleCardAction_r2 ctx req db = (showEditForm_r2 ctx taskID (userID_of req) db, db) \<and>
            handleCardAction_r3 ctx req db = (showEditForm_r3 ctx taskID (userID_of req) db, db)) \<and>
         (\<forall>content. SELECT_content ctx taskID (userID_of req) db = Inr content \<longrightarrow>
            (\<exists>card input. showEditForm_r2 ctx taskID (userID_of req) db =
                              Inr \<lparr>Text = [], Cards = [card]\<rparr> \<and>
               map TextInput (concat (map Widgets (Sections card))) = [Some input, None, None] \<and>
               TextInput_Name input = ''content'' \<and> Value input = content))"
  using assms
  by (auto simp: handleCardAction_r2_def handleCardAction_r3_def Let_def index_def
      showEditForm_r2_def input_widget_def divider_widget_def buttons_widget_def)

theorem C6_edit_action_dispatch_witness:
  "handleCardAction_r2 [] (click ''bob'' [] ''editTask'' [(''taskId'', ''2''), (''content'', ''Call Ann'')]) example_db =
     editTask_r2 [] 2 ''Call Ann'' ''bob'' example_db \<and>
   handleCardAction_r2 [] (click ''bob'' [] ''editTask'' [(''taskId'', ''2'')]) example_db =
     (showEditForm_r2 [] 2 ''bob'' example_db, example_db) \<and>
   (\<exists>card input. showEditForm_r2 [] 2 ''bob'' example_db = Inr \<lparr>Text = [], Cards = [card]\<rparr> \<and>
      map TextInput (concat (map Widgets (Sections card))) = [Some input, None, None] \<and>
      TextInput_Name input = ''content'' \<and> Value input = ''Call Bob'')"
proof -
  let ?a1 = "\<lparr>ActionMethodName = ''editTask'', Parameters = [(''taskId'', ''2''), (''content'', ''Call Ann'')]\<rparr>"
  let ?a2 = "\<lparr>ActionMethodName = ''editTask'', Parameters = [(''taskId'', ''2'')]\<rparr>"
  have p1: "make_params (Parameters ?a1) ''content'' = Some ''Call Ann''"
    and i1: "index (make_params (Parameters ?a1)) ''taskId'' = ''2''"
    and p2: "make_params (Parameters ?a2) ''content'' = None"
    and i2: "index (make_params (Parameters ?a2)) ''taskId'' = ''2''"
    by (simp_all add: make_params_def index_def)
  have at: "Atoi ''2'' = (2, None)" by (simp add: atoi_defs)
  have u: "userID_of (click ''bob'' [] ''editTask'' ps) = ''bob''" for ps
    by (simp add: userID_of_def click_def)
  have sel: "SELECT_content [] 2 ''bob'' example_db = Inr ''Call Bob''"
    by (simp add: SELECT_content_def round_trip_def example_db_def owned_def)
  note w1 = C6_edit_action_dispatch [of "click ''bob'' [] ''editTask'' [(''taskId'', ''2''), (''content'', ''Call Ann'')]" ?a1 2 "[]" example_db]
  note w2 = C6_edit_action_dispatch [of "click ''bob'' [] ''editTask'' [(''taskId'', ''2'')]" ?a2 2 "[]" example_db]
  from w1 p1 i1 at have a: "handleCardAction_r2 [] (click ''bob'' [] ''editTask'' [(''taskId'', ''2''), (''content'', ''Call Ann'')]) example_db =
     editTask_r2 [] 2 ''Call Ann'' ''bob'' example_db"
    by (simp add: click_def u [unfolded click_def])
  from w2 p2 i2 at sel have b: "handleCardAction_r2 [] (click ''bob'' [] ''editTask'' [(''taskId'', ''2'')]) example_db =
     (showEditForm_r2 [] 2 ''bob'' example_db, example_db) \<and>
   (\<exists>card input. showEditForm_r2 [] 2 ''bob'' example_db = Inr \<lparr>Text = [], Cards = [card]\<rparr> \<and>
      map TextInput (concat (map Widgets (Sections card))) = [Some input, None, None] \<and>
      TextInput_Name input = ''content'' \<and> Value input = ''Call Bob'')"
    by (simp add: click_def u [unfolded click_def])
  from a b show ?thesis by simp
qed

subsection \<open>Rows affected\<close>

lemma same_id_same_row:
  assumes "distinct (map col_id xs)" "r \<in> set xs" "x \<in> set xs" "col_id x = col_id r"
  shows "x = r"
  using assms by (meson distinct_map inj_on_def)

lemma update_nothing:
  "\<forall>x \<in> set xs. p x \<longrightarrow> f x = x \<Longrightarrow> map (\<lambda>x. if p x then f x else x) xs = xs"
  by (induction xs) auto

lemma filter_none: "\<not> (\<exists>x \<in> set xs. p x) \<Longrightarrow> filter p xs = []"
  by (induction xs) auto

lemma filter_some: "\<exists>x \<in> set xs. p x \<Longrightarrow> 0 < length (filter p xs)"
  by (induction xs) auto

lemma same_tasks [simp]: "db\<lparr>tasks := tasks db\<rparr> = db"
  by simp

lemma marks_differ:
  "check_mark @ a \<noteq> not_found t" "wastebasket @ b \<noteq> not_found t" "pencil @ c \<noteq> not_found t"
  "no_tasks \<noteq> not_found t"
  by (simp_all add: check_mark_def wastebasket_def pencil_def not_found_def cross_mark_def
      no_tasks_def memo_def)

lemma already_done:
  assumes "distinct (map col_id (tasks db))" "r \<in> set (tasks db)" "owned t u r" "col_done r"
  shows "map (\<lambda>x. if owned t u x then x\<lparr>col_done := True\<rparr> else x) (tasks db) = tasks db"
proof (rule update_nothing, intro ballI impI)
  fix x assume x: "x \<in> set (tasks db)" "owned t u x"
  then have "col_id x = col_id r" using assms(3) by (simp add: owned_def)
  then have "x = r" using assms(1,2) x(1) by (rule same_id_same_row[rotated 3])
  then show "x\<lparr>col_done := True\<rparr> = x" using assms(4) by simp
qed

lemma update_twice:
  "map (\<lambda>x. if owned t u x then x\<lparr>col_done := True\<rparr> else x)
     (map (\<lambda>x. if owned t u x then x\<lparr>col_done := True\<rparr> else x) xs) =
   map (\<lambda>x. if owned t u x then x\<lparr>col_done := True\<rparr> else x) xs"
  by (induction xs) (auto simp: owned_def)

lemma UPDATE_done_twice:
  "round_trip ctx = None \<Longrightarrow>
   snd (UPDATE_done ctx' t u (snd (UPDATE_done ctx t u db))) = snd (UPDATE_done ctx t u db)"
  by (auto simp: UPDATE_done_def update_twice split: option.splits)

lemma no_rows_affected:
  "\<not> (\<exists>r \<in> set (tasks db). owned t u r) \<Longrightarrow>
     filter (owned t u) (tasks db) = [] \<and>
     map (\<lambda>r. if owned t u r then f r else r) (tasks db) = tasks db \<and>
     filter (\<lambda>r. \<not> owned t u r) (tasks db) = tasks db"
  by (auto simp: filter_empty_conv intro: update_nothing)

lemma sort_key_Nil [simp]: "sort_key f xs = [] \<longleftrightarrow> xs = []"
  by (metis length_sort length_0_conv)

lemma listTasks_r2_cases:
  "(\<exists>msg. round_trip c = Some msg \<and> listTasks_r2 c u db = Inl (ErrStorage msg)) \<or>
   (round_trip c = None \<and> listTasks_r2 c u db = Inr (text_reply no_tasks)) \<or>
   (round_trip c = None \<and> (\<exists>cards. cards \<noteq> [] \<and> listTasks_r2 c u db = Inr \<lparr>Text = [], Cards = cards\<rparr>))"
  by (cases "round_trip c") (auto simp: listTasks_r2_def SELECT_tasks_def)

lemma listTasks_r2_not_not_found:
  "listTasks_r2 c u db \<noteq> Inr (text_reply (not_found t))"
  using listTasks_r2_cases [of c u db] by (auto simp: text_reply_def marks_differ)

lemmas set_done_delete_defs =
  markTaskDone_r1_def markTaskDone_r2_def markTaskDone_r3_def deleteTask_r2_def
  deleteTask_r3_def UPDATE_done_def DELETE_task_def

lemma storage_failure_propagated:
  "round_trip ctx = Some msg \<Longrightarrow>
      markTaskDone_r1 ctx taskID userID db = (Inl (ErrStorage msg), db) \<and>
      markTaskDone_r2 ctx taskID userID db = (Inl (ErrStorage msg), db) \<and>
      markTaskDone_r3 ctx taskID userID db = (Inl (ErrStorage msg), db) \<and>
      deleteTask_r2 ctx taskID userID db = (Inl (ErrStorage msg), db) \<and>
      deleteTask_r3 ctx taskID userID db = (Inl (ErrStorage msg), db)"
  by (simp add: set_done_delete_defs)

lemma zero_rows_not_found:
  "round_trip ctx = None \<Longrightarrow> \<not> (\<exists>r \<in> set (tasks db). owned taskID userID r) \<Longrightarrow>
      markTaskDone_r1 ctx taskID userID db = (Inr (not_found taskID), db) \<and>
      markTaskDone_r2 ctx taskID userID db = (Inr (text_reply (not_found taskID)), db) \<and>
      markTaskDone_r3 ctx taskID userID db = (Inr (text_reply (not_found taskID)), db) \<and>
      deleteTask_r2 ctx taskID userID db = (Inr (text_reply (not_found taskID)), db) \<and>
      deleteTask_r3 ctx taskID userID db = (Inr (text_reply (not_found taskID)), db)"
  using no_rows_affected [of db taskID userID]
  by (simp add: set_done_delete_defs)

lemma some_rows_success:
  assumes "round_trip ctx = None" and "\<exists>r \<in> set (tasks db). owned taskID userID r"
  shows "fst (markTaskDone_r1 ctx taskID userID db) =
        Inr (check_mark @ '' Task '' @ Itoa taskID @ '' marked as done!'') \<and>
      fst (markTaskDone_r3 ctx taskID userID db) =
        Inr (text_reply (check_mark @ '' Task '' @ Itoa taskID @ '' marked as done!'')) \<and>
      fst (deleteTask_r3 ctx taskID userID db) =
        Inr (text_reply (wastebasket @ '' Task '' @ Itoa taskID @ '' deleted!'')) \<and>
      fst (markTaskDone_r2 ctx taskID userID db) =
        listTasks_r2 (tl ctx) userID (snd (markTaskDone_r2 ctx taskID userID db)) \<and>
      fst (deleteTask_r2 ctx taskID userID db) =
        listTasks_r2 (tl ctx) userID (snd (deleteTask_r2 ctx taskID userID db))"
proof -
  have "filter (owned taskID userID) (tasks db) \<noteq> []"
    using assms(2) by (simp add: filter_empty_conv)
  then show ?thesis
    using assms(1) by (simp add: set_done_delete_defs)
qed

lemma chat_done_failure_wrapped:
  assumes "round_trip ctx = Some msg"
    and "addCmd (TrimSpace (MessageText (Message req))) = None"
    and "\<not> listCmd (TrimSpace (MessageText (Message req)))"
    and "doneCmd (TrimSpace (MessageText (Message req))) = Some m"
  shows "HandleChat_r1 ctx req db =
           (Inl (Errorf ''failed to mark task as done'' (ErrStorage msg)), db)"
  using assms by (simp add: HandleChat_r1_def markTaskDone_r1_def UPDATE_done_def)

text \<open>
  C7. \<open>markTaskDone\<close> and \<open>deleteTask\<close> report in one of three ways. When the storage round
  trip of the statement fails, the error is returned and the store is as it was (and
  \<open>HandleChat\<close> of revision 1 returns it wrapped). When the statement runs and no row has
  that id and owner, the reply is the not-found text and the store is as it was. When it
  runs and such a row exists, the reply is the success text (revisions 1 and 3) or what
  \<open>listTasks\<close> returns next (revision 2): the storage error when its round trip fails,
  otherwise the task list. The success texts and every reply of \<open>listTasks\<close> differ from
  the not-found text.
\<close>

theorem C7_three_outcomes:
  "(\<forall>msg. round_trip ctx = Some msg \<longrightarrow>
      markTaskDone_r1 ctx taskID userID db = (Inl (ErrStorage msg), db) \<and>
      markTaskDone_r2 ctx taskID userID db = (Inl (ErrStorage msg), db) \<and>
      markTaskDone_r3 ctx taskID userID db = (Inl (ErrStorage msg), db) \<and>
      deleteTask_r2 ctx taskID userID db = (Inl (ErrStorage msg), db) \<and>
      deleteTask_r3 ctx taskID userID db = (Inl (ErrStorage msg), db)) \<and>
   (round_trip ctx = None \<and> \<not> (\<exists>r \<in> set (tasks db). owned taskID userID r) \<longrightarrow>
      markTaskDone_r1 ctx taskID userID db = (Inr (not_found taskID), db) \<and>
      markTaskDone_r2 ctx taskID userID db = (Inr (text_reply (not_found taskID)), db) \<and>
      markTaskDone_r3 ctx taskID userID db = (Inr (text_reply (not_found taskID)), db) \<and>
      deleteTask_r2 ctx taskID userID db = (Inr (text_reply (not_found taskID)), db) \<and>
      deleteTask_r3 ctx taskID userID db = (Inr (text_reply (not_found taskID)), db)) \<and>
   (round_trip ctx = None \<and> (\<exists>r \<in> set (tasks db). owned taskID userID r) \<longrightarrow>
      fst (markTaskDone_r1 ctx taskID userID db) =
        Inr (check_mark @ '' Task '' @ Itoa taskID @ '' marked as done!'') \<and>
      fst (markTaskDone_r3 ctx taskID userID db) =
        Inr (text_reply (check_mark @ '' Task '' @ Itoa taskID @ '' marked as done!'')) \<and>
      fst (deleteTask_r3 ctx taskID userID db) =
        Inr (text_reply (wastebasket @ '' Task '' @ Itoa taskID @ '' deleted!'')) \<and>
      fst (markTaskDone_r2 ctx taskID userID db) =
        listTasks_r2 (tl ctx) userID (snd (markTaskDone_r2 ctx taskID userID db)) \<and>
      fst (deleteTask_r2 ctx taskID userID db) =
        listTasks_r2 (tl ctx) userID (snd (deleteTask_r2 ctx taskID userID db))) \<and>
   check_mark @ '' Task '' @ Itoa taskID @ '' marked as done!'' \<noteq> not_found taskID \<and>
   wastebasket @ '' Task '' @ Itoa taskID @ '' deleted!'' \<noteq> not_found taskID \<and>
   listTasks_r2 ctx' userID db' \<noteq> Inr (text_reply (not_found taskID)) \<and>
   ((\<exists>msg. round_trip ctx' = Some msg \<and> listTasks_r2 ctx' userID db' = Inl (ErrStorage msg)) \<or>
    (round_trip ctx' = None \<and> listTasks_r2 ctx' userID db' = Inr (text_reply no_tasks)) \<or>
    (round_trip ctx' = None \<and>
     (\<exists>cards. cards \<noteq> [] \<and> listTasks_r2 ctx' userID db' = Inr \<lparr>Text = [], Cards = cards\<rparr>))) \<and>
   (\<forall>msg m. round_trip ctx = Some msg \<and>
      addCmd (TrimSpace (MessageText (Message req))) = None \<and>
      \<not> listCmd (TrimSpace (MessageText (Message req))) \<and>
      doneCmd (TrimSpace (MessageText (Message req))) = Some m \<longrightarrow>
      HandleChat_r1 ctx req db =
        (Inl (Errorf ''failed to mark task as done'' (ErrStorage msg)), db))"
proof (intro conjI allI impI)
  fix msg assume "round_trip ctx = Some msg"
  from storage_failure_propagated [OF this, of taskID userID db]
  show "markTaskDone_r1 ctx taskID userID db = (Inl (ErrStorage msg), db)"
    and "markTaskDone_r2 ctx taskID userID db = (Inl (ErrStorage msg), db)"
    and "markTaskDone_r3 ctx taskID userID db = (Inl (ErrStorage msg), db)"
    and "deleteTask_r2 ctx taskID userID db = (Inl (ErrStorage msg), db)"
    and "deleteTask_r3 ctx taskID userID db = (Inl (ErrStorage msg), db)"
    by simp_all
next
  assume "round_trip ctx = None \<and> \<not> (\<exists>r \<in> set (tasks db). owned taskID userID r)"
  then have "round_trip ctx = None" "\<not> (\<exists>r \<in> set (tasks db). owned taskID userID r)"
    by simp_all
  from zero_rows_not_found [OF this]
  show "markTaskDone_r1 ctx taskID userID db = (Inr (not_found taskID), db)"
    and "markTaskDone_r2 ctx taskID userID db = (Inr (text_reply (not_found taskID)), db)"
    and "markTaskDone_r3 ctx taskID userID db = (Inr (text_reply (not_found taskID)), db)"
    and "deleteTask_r2 ctx taskID userID db = (Inr (text_reply (not_found taskID)), db)"
    and "deleteTask_r3 ctx taskID userID db = (Inr (text_reply (not_found taskID)), db)"
    by simp_all
next
  assume "round_trip ctx = None \<and> (\<exists>r \<in> set (tasks db). owned taskID userID r)"
  then have "round_trip ctx = None" "\<exists>r \<in> set (tasks db). owned taskID userID r"
    by simp_all
  from some_rows_success [OF this]
  show "fst (markTaskDone_r1 ctx taskID userID db) =
        Inr (check_mark @ '' Task '' @ Itoa taskID @ '' marked as done!'')"
    and "fst (markTaskDone_r3 ctx taskID userID db) =
        Inr (text_reply (check_mark @ '' Task '' @ Itoa taskID @ '' marked as done!''))"
    and "fst (deleteTask_r3 ctx taskID userID db) =
        Inr (text_reply (wastebasket @ '' Task '' @ Itoa taskID @ '' deleted!''))"
    and "fst (markTaskDone_r2 ctx taskID userID db) =
        listTasks_r2 (tl ctx) userID (snd (markTaskDone_r2 ctx taskID userID db))"
    and "fst (deleteTask_r2 ctx taskID userID db) =
        listTasks_r2 (tl ctx) userID (snd (deleteTask_r2 ctx taskID userID db))"
    by simp_all
next
  show "check_mark @ '' Task '' @ Itoa taskID @ '' marked as done!'' \<noteq> not_found taskID"
    and "wastebasket @ '' Task '' @ Itoa taskID @ '' deleted!'' \<noteq> not_found taskID"
    by (rule marks_differ)+
next
  show "listTasks_r2 ctx' userID db' \<noteq> Inr (text_reply (not_found taskID))"
    by (rule listTasks_r2_not_not_found)
next
  show "(\<exists>msg. round_trip ctx' = Some msg \<and> listTasks_r2 ctx' userID db' = Inl (ErrStorage msg)) \<or>
    (round_trip ctx' = None \<and> listTasks_r2 ctx' userID db' = Inr (text_reply no_tasks)) \<or>
    (round_trip ctx' = None \<and>
     (\<exists>cards. cards \<noteq> [] \<and> listTasks_r2 ctx' userID db' = Inr \<lparr>Text = [], Cards = cards\<rparr>))"
    by (rule listTasks_r2_cases)
next
  fix msg m
  assume "round_trip ctx = Some msg \<and>
      addCmd (TrimSpace (MessageText (Message req))) = None \<and>
      \<not> listCmd (TrimSpace (MessageText (Message req))) \<and>
      doneCmd (TrimSpace (MessageText (Message req))) = Some m"
  then show "HandleChat_r1 ctx req db =
        (Inl (Errorf ''failed to mark task as done'' (ErrStorage msg)), db)"
    by (intro chat_done_failure_wrapped [of ctx msg req m]) simp_all
qed

theorem C7_three_outcomes_witness:
  "markTaskDone_r1 [Some ''connection lost''] 2 ''bob'' example_db =
     (Inl (ErrStorage ''connection lost''), example_db) \<and>
   deleteTask_r3 [Some ''connection lost''] 2 ''bob'' example_db =
     (Inl (ErrStorage ''connection lost''), example_db) \<and>
   markTaskDone_r1 [] 1 ''bob'' example_db = (Inr (not_found 1), example_db) \<and>
   deleteTask_r3 [] 1 ''bob'' example_db = (Inr (text_reply (not_found 1)), example_db) \<and>
   fst (markTaskDone_r1 [] 2 ''bob'' example_db) =
     Inr (check_mark @ '' Task '' @ Itoa 2 @ '' marked as done!'') \<and>
   fst (deleteTask_r3 [] 2 ''bob'' example_db) =
     Inr (text_reply (wastebasket @ '' Task '' @ Itoa 2 @ '' deleted!'')) \<and>
   HandleChat_r1 [Some ''connection lost''] (say ''bob'' [] ''done 2'') example_db =
     (Inl (Errorf ''failed to mark task as done'' (ErrStorage ''connection lost'')), example_db)"
proof -
  have f: "round_trip [Some ''connection lost''] = Some ''connection lost''"
    and n: "round_trip [] = None"
    by (simp_all add: round_trip_def)
  have no: "\<not> (\<exists>r \<in> set (tasks example_db). owned 1 ''bob'' r)"
    and yes: "\<exists>r \<in> set (tasks example_db). owned 2 ''bob'' r"
    by (simp_all add: example_db_def owned_def)
  have t: "TrimSpace (MessageText (Message (say ''bob'' [] ''done 2''))) = ''done 2''"
    by (simp add: say_def trim_defs)
  have c: "addCmd ''done 2'' = None \<and> \<not> listCmd ''done 2'' \<and> doneCmd ''done 2'' = Some ''2''"
    by (simp add: cmd_defs)
  note w1 = C7_three_outcomes [of "[Some ''connection lost'']" 2 "''bob''" example_db "[]"
      example_db "say ''bob'' [] ''done 2''"]
  note w2 = C7_three_outcomes [of "[]" 1 "''bob''" example_db "[]" example_db
      "say ''bob'' [] ''done 2''"]
  note w3 = C7_three_outcomes [of "[]" 2 "''bob''" example_db "[]" example_db
      "say ''bob'' [] ''done 2''"]
  have a1: "markTaskDone_r1 [Some ''connection lost''] 2 ''bob'' example_db =
     (Inl (ErrStorage ''connection lost''), example_db) \<and>
   deleteTask_r3 [Some ''connection lost''] 2 ''bob'' example_db =
     (Inl (ErrStorage ''connection lost''), example_db) \<and>
   HandleChat_r1 [Some ''connection lost''] (say ''bob'' [] ''done 2'') example_db =
     (Inl (Errorf ''failed to mark task as done'' (ErrStorage ''connection lost'')), example_db)"
    using w1 f t c by simp
  have a2: "markTaskDone_r1 [] 1 ''bob'' example_db = (Inr (not_found 1), example_db) \<and>
   deleteTask_r3 [] 1 ''bob'' example_db = (Inr (text_reply (not_found 1)), example_db)"
    using w2 n no by simp
  have a3: "fst (markTaskDone_r1 [] 2 ''bob'' example_db) =
     Inr (check_mark @ '' Task '' @ Itoa 2 @ '' marked as done!'') \<and>
   fst (deleteTask_r3 [] 2 ''bob'' example_db) =
     Inr (text_reply (wastebasket @ '' Task '' @ Itoa 2 @ '' deleted!''))"
    using w3 n yes by simp
  from a1 a2 a3 show ?thesis by simp
qed

text \<open>
  C9. Revision 2 renders the tasks of an owner as one card per row, in the order of the
  ids. The button list of a task's card is \<open>createTaskButtons\<close> of its id and done flag:
  Mark as Done (only when the task is not done), Edit, Delete, each with its action name
  and the parameter \<open>taskId\<close> set to the id in decimal.
\<close>

theorem C9_task_cards:
  "map button_summary (createTaskButtons taskID done) =
     (if done then [] else [Some (''Mark as Done'', ''markDone'', Some (Itoa taskID))]) @
     [Some (''Edit'', ''editTask'', Some (Itoa taskID)),
      Some (''Delete'', ''deleteTask'', Some (Itoa taskID))] \<and>
   map ButtonList (concat (map Widgets (Sections (task_card (taskID, content, done))))) =
     [None, None, Some \<lparr>Buttons = createTaskButtons taskID done\<rparr>] \<and>
   (round_trip ctx = None \<and> (\<exists>r \<in> set (tasks db). col_user_id r = userID) \<longrightarrow>
      listTasks_r2 ctx userID db =
        Inr \<lparr>Text = [],
             Cards = map (\<lambda>r. task_card (col_id r, col_content r, col_done r))
                       (sort_key col_id (filter (\<lambda>r. col_user_id r = userID) (tasks db)))\<rparr>)"
  by (auto simp: createTaskButtons_def button_summary_def button_def task_card_def
      text_widget_def divider_widget_def buttons_widget_def listTasks_r2_def SELECT_tasks_def
      filter_empty_conv o_def)

theorem C9_task_cards_witness:
  "listTasks_r2 [] ''bob'' example_db =
     Inr \<lparr>Text = [], Cards = [task_card (2, ''Call Bob'', True)]\<rparr> \<and>
   map button_summary (createTaskButtons 2 True) =
     [Some (''Edit'', ''editTask'', Some ''2''), Some (''Delete'', ''deleteTask'', Some ''2'')] \<and>
   map button_summary (createTaskButtons 1 False) =
     [Some (''Mark as Done'', ''markDone'', Some ''1''), Some (''Edit'', ''editTask'', Some ''1''),
      Some (''Delete'', ''deleteTask'', Some ''1'')]"
proof -
  have n: "round_trip [] = None"
    by (simp add: round_trip_def)
  have o: "\<exists>r \<in> set (tasks example_db). col_user_id r = ''bob''"
    by (simp add: example_db_def)
  have i: "Itoa 2 = ''2''" "Itoa 1 = ''1''"
    by (simp_all add: itoa_defs)
  have rows: "sort_key col_id (filter (\<lambda>r. col_user_id r = ''bob'') (tasks example_db)) =
      [\<lparr>col_id = 2, col_content = ''Call Bob'', col_done = True, col_user_id = ''bob''\<rparr>]"
    by (simp add: example_db_def)
  note w1 = C9_task_cards [of 2 True "''Call Bob''" "[]" example_db "''bob''"]
  note w2 = C9_task_cards [of 1 False "''Buy milk''" "[]" example_db "''bob''"]
  from w1 w2 n o i rows show ?thesis by simp
qed

text \<open>
  C10. Marking a task done that is already done: the update matches the row whatever its
  done flag, so the reply is the success reply again (revision 2: the task list, which is
  never the not-found reply) and the store that comes back is the store that went in.
\<close>

theorem C10_set_done_idempotent:
  assumes "round_trip ctx = None"
    and "distinct (map col_id (tasks db))"
    and "r \<in> set (tasks db)" and "owned taskID userID r" and "col_done r"
  shows "markTaskDone_r1 ctx taskID userID db =
           (Inr (check_mark @ '' Task '' @ Itoa taskID @ '' marked as done!''), db) \<and>
         markTaskDone_r3 ctx taskID userID db =
           (Inr (text_reply (check_mark @ '' Task '' @ Itoa taskID @ '' marked as done!'')), db) \<and>
         markTaskDone_r2 ctx taskID userID db = (listTasks_r2 (tl ctx) userID db, db) \<and>
         listTasks_r2 (tl ctx) userID db \<noteq> Inr (text_reply (not_found taskID)) \<and>
         check_mark @ '' Task '' @ Itoa taskID @ '' marked as done!'' \<noteq> not_found taskID"
proof -
  have n: "0 < length (filter (owned taskID userID) (tasks db))"
    using assms(3,4) by (intro filter_some) blast
  have u: "UPDATE_done ctx taskID userID db =
             (Inr (length (filter (owned taskID userID) (tasks db))), db)"
    using assms(1) already_done [OF assms(2-5)] by (simp add: UPDATE_done_def)
  have own: "filter (\<lambda>r. col_user_id r = userID) (tasks db) \<noteq> []"
    using assms(3,4) by (auto simp: filter_empty_conv owned_def)
  then have rows: "sort_key col_id (filter (\<lambda>r. col_user_id r = userID) (tasks db)) \<noteq> []"
    by (metis length_sort length_0_conv)
  have l: "listTasks_r2 (tl ctx) userID db \<noteq> Inr (text_reply (not_found taskID))"
    using rows by (auto simp: listTasks_r2_def SELECT_tasks_def text_reply_def split: option.splits)
  show ?thesis
    using n u l by (simp add: markTaskDone_r1_def markTaskDone_r2_def markTaskDone_r3_def marks_differ)
qed


theorem C10_set_done_idempotent_witness:
  "markTaskDone_r1 [] 2 ''bob'' example_db =
     (Inr (check_mark @ '' Task '' @ Itoa 2 @ '' marked as done!''), example_db) \<and>
   markTaskDone_r3 [] 2 ''bob'' example_db =
     (Inr (text_reply (check_mark @ '' Task '' @ Itoa 2 @ '' marked as done!'')), example_db) \<and>
   markTaskDone_r2 [] 2 ''bob'' example_db = (listTasks_r2 [] ''bob'' example_db, example_db)"
proof -
  let ?r = "\<lparr>col_id = 2, col_content = ''Call Bob'', col_done = True, col_user_id = ''bob''\<rparr>"
  have "round_trip [] = None" by (simp add: round_trip_def)
  moreover have "distinct (map col_id (tasks example_db))" by (simp add: example_db_def)
  moreover have "?r \<in> set (tasks example_db)" by (simp add: example_db_def)
  moreover have "owned 2 ''bob'' ?r" by (simp add: owned_def)
  moreover have "col_done ?r" by simp
  ultimately show ?thesis
    using C10_set_done_idempotent [of "[]" example_db ?r 2 "''bob''"] by simp
qed

subsection \<open>The matchers accept what the regular expressions accept\<close>

lemma digit_not_space: "re_digit c \<Longrightarrow> \<not> re_space c"
  by (auto simp: re_digit_def re_space_def)

lemma spaces_then_digits:
  assumes "list_all re_space ws" and "ds \<noteq> []" and "list_all re_digit ds"
  shows "takeWhile re_space (ws @ ds) = ws" and "dropWhile re_space (ws @ ds) = ds"
proof -
  obtain d ds' where ds: "ds = d # ds'" using assms(2) by (cases ds) auto
  with assms(3) have "\<not> re_space d" by (simp add: digit_not_space)
  with ds assms(1) show "takeWhile re_space (ws @ ds) = ws" "dropWhile re_space (ws @ ds) = ds"
    by (simp_all add: takeWhile_append2 dropWhile_append2 list_all_iff)
qed

lemma doneCmd_language:
  "doneCmd t = Some ds \<longleftrightarrow>
     (\<exists>ws. t = ''done'' @ ws @ ds \<and> ws \<noteq> [] \<and> list_all re_space ws \<and>
           ds \<noteq> [] \<and> list_all re_digit ds)"
proof
  assume a: "doneCmd t = Some ds"
  then have p: "prefix ''done'' t"
    by (simp add: doneCmd_def split: if_splits)
  then obtain r where t: "t = ''done'' @ r" by (auto simp: prefix_def)
  with a have "takeWhile re_space r \<noteq> [] \<and> ds = dropWhile re_space r \<and> ds \<noteq> [] \<and>
      list_all re_digit ds"
    by (auto simp: doneCmd_def Let_def split: if_splits)
  moreover have "r = takeWhile re_space r @ dropWhile re_space r" by simp
  moreover have "list_all re_space (takeWhile re_space r)"
    by (auto simp: list_all_iff dest: set_takeWhileD)
  ultimately show "\<exists>ws. t = ''done'' @ ws @ ds \<and> ws \<noteq> [] \<and> list_all re_space ws \<and>
           ds \<noteq> [] \<and> list_all re_digit ds"
    using t by metis
next
  assume "\<exists>ws. t = ''done'' @ ws @ ds \<and> ws \<noteq> [] \<and> list_all re_space ws \<and>
           ds \<noteq> [] \<and> list_all re_digit ds"
  then obtain ws where w: "t = ''done'' @ ws @ ds" "ws \<noteq> []" "list_all re_space ws"
    "ds \<noteq> []" "list_all re_digit ds" by blast
  show "doneCmd t = Some ds"
  proof -
    have "prefix ''done'' t" "drop 4 t = ws @ ds" using w(1) by simp_all
    then show ?thesis
      unfolding doneCmd_def Let_def spaces_then_digits [OF w(3,4,5)]
      using w(2,4,5) by (simp only: spaces_then_digits [OF w(3,4,5)] if_True simp_thms)
  qed
qed

lemma spaces_then_rest_language:
  "spaces_then_rest r \<noteq> None \<longleftrightarrow>
     (\<exists>ws c. r = ws @ c \<and> ws \<noteq> [] \<and> list_all re_space ws \<and> c \<noteq> [] \<and> newline \<notin> set c)"
proof
  assume "spaces_then_rest r \<noteq> None"
  then obtain j where j: "1 \<le> j" "j \<le> length (takeWhile re_space r)" "dot_plus (drop j r)"
    by (auto simp: spaces_then_rest_def Let_def find_None_iff)
  have "take j r = take j (takeWhile re_space r)"
    using j(2) by (metis min.absorb2 takeWhile_eq_take take_take min.commute)
  then have "set (take j r) \<subseteq> set (takeWhile re_space r)"
    by (metis set_take_subset)
  then have "list_all re_space (take j r)"
    by (auto simp: list_all_iff dest: set_takeWhileD)
  moreover have "take j r \<noteq> []"
    using j by (cases r) auto
  moreover have "r = take j r @ drop j r" by simp
  ultimately show "\<exists>ws c. r = ws @ c \<and> ws \<noteq> [] \<and> list_all re_space ws \<and> c \<noteq> [] \<and> newline \<notin> set c"
    using j(3) unfolding dot_plus_def by blast
next
  assume "\<exists>ws c. r = ws @ c \<and> ws \<noteq> [] \<and> list_all re_space ws \<and> c \<noteq> [] \<and> newline \<notin> set c"
  then obtain ws c where w: "r = ws @ c" "ws \<noteq> []" "list_all re_space ws" "c \<noteq> []"
    "newline \<notin> set c" by blast
  have "takeWhile re_space r = ws @ takeWhile re_space c"
    using w(1,3) by (simp add: takeWhile_append2 list_all_iff)
  then have "length ws \<le> length (takeWhile re_space r)" by simp
  moreover have "1 \<le> length ws" using w(2) by (cases ws) auto
  moreover have "dot_plus (drop (length ws) r)" using w by (simp add: dot_plus_def)
  ultimately have "\<exists>j. j \<in> set (rev [1..<Suc (length (takeWhile re_space r))]) \<and>
      dot_plus (drop j r)"
    by (intro exI [of _ "length ws"]) auto
  then have "find (\<lambda>j. dot_plus (drop j r)) (rev [1..<Suc (length (takeWhile re_space r))]) \<noteq> None"
    unfolding find_None_iff by blast
  then show "spaces_then_rest r \<noteq> None"
    unfolding spaces_then_rest_def Let_def by (simp only: option.map_disc_iff not_False_eq_True)
qed

lemma addCmd_language:
  "addCmd t \<noteq> None \<longleftrightarrow>
     (\<exists>ws c. t = ''add'' @ ws @ c \<and> ws \<noteq> [] \<and> list_all re_space ws \<and> c \<noteq> [] \<and>
             newline \<notin> set c)"
proof (cases "prefix ''add'' t")
  case True
  then obtain r where t: "t = ''add'' @ r" by (auto simp: prefix_def)
  then show ?thesis
    using spaces_then_rest_language [of r] by (simp add: addCmd_def)
next
  case False
  then show ?thesis by (auto simp: addCmd_def)
qed

lemma editCmd_language:
  "editCmd t \<noteq> None \<longleftrightarrow>
     (\<exists>ws ds ws' c. t = ''edit'' @ ws @ ds @ ws' @ c \<and> ws \<noteq> [] \<and> list_all re_space ws \<and>
        ds \<noteq> [] \<and> list_all re_digit ds \<and> ws' \<noteq> [] \<and> list_all re_space ws' \<and> c \<noteq> [] \<and>
        newline \<notin> set c)"
proof
  assume a: "editCmd t \<noteq> None"
  then obtain r where t: "t = ''edit'' @ r"
    by (auto simp: editCmd_def prefix_def split: if_splits)
  let ?ws = "takeWhile re_space r" and ?r1 = "dropWhile re_space r"
  let ?ds = "takeWhile re_digit ?r1" and ?r2 = "dropWhile re_digit ?r1"
  from a t have b: "?ws \<noteq> []" "?ds \<noteq> []" "spaces_then_rest ?r2 \<noteq> None"
    by (auto simp: editCmd_def Let_def split: if_splits)
  from b(3) obtain ws' c where w: "?r2 = ws' @ c" "ws' \<noteq> []" "list_all re_space ws'" "c \<noteq> []"
    "newline \<notin> set c"
    using spaces_then_rest_language [of ?r2] by blast
  have "r = ?ws @ ?ds @ ?r2" by simp
  then have "t = ''edit'' @ ?ws @ ?ds @ ws' @ c" using t w(1) by simp
  moreover have "list_all re_space ?ws" "list_all re_digit ?ds"
    by (auto simp: list_all_iff dest: set_takeWhileD)
  ultimately show "\<exists>ws ds ws' c. t = ''edit'' @ ws @ ds @ ws' @ c \<and> ws \<noteq> [] \<and> list_all re_space ws \<and>
        ds \<noteq> [] \<and> list_all re_digit ds \<and> ws' \<noteq> [] \<and> list_all re_space ws' \<and> c \<noteq> [] \<and>
        newline \<notin> set c"
    using b(1,2) w(2-5) by blast
next
  assume "\<exists>ws ds ws' c. t = ''edit'' @ ws @ ds @ ws' @ c \<and> ws \<noteq> [] \<and> list_all re_space ws \<and>
        ds \<noteq> [] \<and> list_all re_digit ds \<and> ws' \<noteq> [] \<and> list_all re_space ws' \<and> c \<noteq> [] \<and>
        newline \<notin> set c"
  then obtain ws ds ws' c where w: "t = ''edit'' @ ws @ ds @ ws' @ c" "ws \<noteq> []"
    "list_all re_space ws" "ds \<noteq> []" "list_all re_digit ds" "ws' \<noteq> []" "list_all re_space ws'"
    "c \<noteq> []" "newline \<notin> set c" by blast
  obtain d ds' where ds: "ds = d # ds'" using w(4) by (cases ds) auto
  then have nd: "\<not> re_space d" using w(5) by (simp add: digit_not_space)
  obtain s ws'' where ws': "ws' = s # ws''" using w(6) by (cases ws') auto
  then have ns: "\<not> re_digit s" using w(7) digit_not_space [of s] by auto
  have 1: "takeWhile re_space (ws @ ds @ ws' @ c) = ws"
    "dropWhile re_space (ws @ ds @ ws' @ c) = ds @ ws' @ c"
    using w(3) nd ds by (simp_all add: takeWhile_append2 dropWhile_append2 list_all_iff)
  have 2: "takeWhile re_digit (ds @ ws' @ c) = ds" "dropWhile re_digit (ds @ ws' @ c) = ws' @ c"
    using w(5) ns ws' by (simp_all add: takeWhile_append2 dropWhile_append2 list_all_iff)
  have "spaces_then_rest (ws' @ c) \<noteq> None"
    using spaces_then_rest_language [of "ws' @ c"] w(6-9) by blast
  with w(1,2,4) 1 2 show "editCmd t \<noteq> None"
    by (simp add: editCmd_def)
qed

subsection \<open>\<open>strconv.Atoi\<close> on what \<open>\d+\<close> captures\<close>

text \<open>
  A captured digit sequence converts to the number it denotes exactly when that number is
  below \<open>2^63\<close>; from there on the conversion fails with a range error and the value
  \<open>2^63 - 1\<close>.
\<close>

lemma digit_val_range: "re_digit c \<Longrightarrow> 0 \<le> digit_val c \<and> digit_val c \<le> 9"
  by (auto simp: re_digit_def digit_val_def)

lemma number_grows: "list_all re_digit cs \<Longrightarrow> 0 \<le> n \<Longrightarrow> n \<le> number n cs"
proof (induction cs arbitrary: n)
  case Nil
  then show ?case by simp
next
  case (Cons c cs)
  then have d: "0 \<le> digit_val c" using digit_val_range [of c] by simp
  with Cons.prems have "n \<le> n * 10 + digit_val c" by simp
  moreover have "n * 10 + digit_val c \<le> number (n * 10 + digit_val c) cs"
    using Cons.prems d by (intro Cons.IH) simp_all
  ultimately show ?case by simp
qed

lemma ParseUint_loop_digits:
  "list_all re_digit cs \<Longrightarrow> 0 \<le> n \<Longrightarrow> n \<le> maxUint64 \<Longrightarrow>
   ParseUint_loop n cs =
     (if number n cs \<le> maxUint64 then (number n cs, None) else (maxUint64, Some ErrRange))"
proof (induction cs arbitrary: n)
  case Nil
  then show ?case by simp
next
  case (Cons c cs)
  then have d: "0 \<le> digit_val c" "digit_val c \<le> 9" "re_digit c" "list_all re_digit cs"
    using digit_val_range [of c] by simp_all
  let ?n = "n * 10 + digit_val c"
  have g: "?n \<le> number ?n cs"
    using d Cons.prems by (intro number_grows) simp_all
  show ?case
  proof (cases "n \<ge> maxUint64 div 10 + 1 \<or> ?n > maxUint64")
    case True
    then have "?n > maxUint64" using d by (auto simp: maxUint64_def)
    with g have "number n (c # cs) > maxUint64" by simp
    with True d show ?thesis by auto
  next
    case False
    moreover have "0 \<le> ?n" using d Cons.prems by simp
    ultimately show ?thesis
      using Cons.IH [of ?n] d by (simp add: not_less)
  qed
qed

lemma Atoi_digits:
  assumes "ds \<noteq> []" and "list_all re_digit ds"
  shows "Atoi ds = (if number 0 ds < 2 ^ 63 then (number 0 ds, None)
                    else (2 ^ 63 - 1, Some ErrRange))"
proof -
  obtain c cs where ds: "ds = c # cs" using assms(1) by (cases ds) auto
  with assms(2) have c: "re_digit c" by simp
  then have sign: "c \<noteq> CHR ''+''" "c \<noteq> CHR ''-''"
    by (auto simp: re_digit_def)
  have "ParseUint ds =
     (if number 0 ds \<le> maxUint64 then (number 0 ds, None) else (maxUint64, Some ErrRange))"
    using assms ParseUint_loop_digits [of ds 0] by (simp add: ParseUint_def maxUint64_def)
  then show ?thesis
    using sign ds by (auto simp: Atoi_def ParseInt_def maxUint64_def)
qed

lemma captured_digits:
  "doneCmd t = Some ds \<Longrightarrow> ds \<noteq> [] \<and> list_all re_digit ds"
  "editCmd t = Some (ds, c) \<Longrightarrow> ds \<noteq> [] \<and> list_all re_digit ds"
proof -
  show "doneCmd t = Some ds \<Longrightarrow> ds \<noteq> [] \<and> list_all re_digit ds"
    using doneCmd_language [of t ds] by blast
  show "editCmd t = Some (ds, c) \<Longrightarrow> ds \<noteq> [] \<and> list_all re_digit ds"
    by (auto simp: editCmd_def Let_def list_all_iff split: if_splits dest: set_takeWhileD)
qed

subsection \<open>The command grammar\<close>

lemma HandleChat_r1_classified:
  "HandleChat_r1 ctx req db =
     run_r1 ctx (classify_r1 (TrimSpace (MessageText (Message req)))) (userID_of req) db"
  by (simp add: HandleChat_r1_def classify_r1_def run_r1_def wrap_text_def Let_def
      split: option.splits prod.splits sum.splits)

lemma HandleChat_r2_classified:
  "Action req = None \<Longrightarrow> HandleChat_r2 ctx req db =
     run_r2 ctx (classify_r1 (TrimSpace (MessageText (Message req)))) (userID_of req) db"
  by (simp add: HandleChat_r2_def classify_r1_def run_r2_def wrap_def Let_def
      split: option.splits prod.splits sum.splits)

lemma HandleChat_r3_classified:
  "Action req = None \<Longrightarrow> HandleChat_r3 ctx req db =
     run_r3 ctx (classify_r3 (TrimSpace (MessageText (Message req)))) (userID_of req) db"
  by (simp add: HandleChat_r3_def classify_r3_def run_r3_def wrap_def Let_def
      split: option.splits prod.splits sum.splits)

lemma pattern_heads:
  "addCmd t \<noteq> None \<Longrightarrow> take 1 t = ''a''"
  "listCmd t \<Longrightarrow> take 1 t = ''l''"
  "doneCmd t \<noteq> None \<Longrightarrow> take 1 t = ''d''"
  "editCmd t \<noteq> None \<Longrightarrow> take 1 t = ''e''"
  "testCmd t \<Longrightarrow> take 1 t = ''t''"
  by (cases t; simp add: addCmd_def listCmd_def doneCmd_def editCmd_def testCmd_def split: if_splits)+

lemma at_most_one:
  fixes x :: string
  assumes "A \<longrightarrow> x = ''a''" "L \<longrightarrow> x = ''l''" "D \<longrightarrow> x = ''d''" "E \<longrightarrow> x = ''e''" "T \<longrightarrow> x = ''t''"
  shows "length (filter id [A, L, D, E, T]) \<le> 1"
  using assms by (cases A; cases L; cases D; cases E; cases T; simp)

lemma patterns_exclusive:
  "length (filter id [addCmd t \<noteq> None, listCmd t, doneCmd t \<noteq> None, editCmd t \<noteq> None, testCmd t]) \<le> 1"
  by (rule at_most_one [of _ "take 1 t"]) (blast intro: pattern_heads)+

lemma classify_order:
  "(\<forall>m. addCmd t = Some m \<longrightarrow> classify_r3 t = Add (TrimSpace m)) \<and>
   (addCmd t = None \<and> listCmd t \<longrightarrow> classify_r3 t = List) \<and>
   (\<forall>m. addCmd t = None \<and> \<not> listCmd t \<and> doneCmd t = Some m \<longrightarrow>
      classify_r3 t = Done (fst (Atoi m))) \<and>
   (\<forall>m1 m2. addCmd t = None \<and> \<not> listCmd t \<and> doneCmd t = None \<and> editCmd t = Some (m1, m2) \<longrightarrow>
      classify_r3 t = Edit (fst (Atoi m1)) (TrimSpace m2)) \<and>
   (addCmd t = None \<and> \<not> listCmd t \<and> doneCmd t = None \<and> editCmd t = None \<and> testCmd t \<longrightarrow>
      classify_r3 t = Test) \<and>
   (addCmd t = None \<and> \<not> listCmd t \<and> doneCmd t = None \<and> editCmd t = None \<and> \<not> testCmd t \<longrightarrow>
      classify_r3 t = Help) \<and>
   classify_r1 t = (case classify_r3 t of Edit taskID content \<Rightarrow> Help | Test \<Rightarrow> Help | i \<Rightarrow> i)"
  by (simp add: classify_r3_def classify_r1_def split: option.splits)

lemma classify_examples:
  "addCmd ''list'' = None \<and> classify_r3 ''list'' = List \<and> doneCmd ''done 12'' = Some ''12'' \<and>
   classify_r3 ''done 12'' = Done 12"
  by (simp add: classify_r3_def cmd_defs atoi_defs)

lemma run_static:
  "run_r3 ctx Help userID db = (Inr (text_reply help_r3), db) \<and>
   run_r3 ctx Test userID db = (Inr (text_reply test_reply), db) \<and>
   run_r2 ctx Help userID db = (Inr (text_reply help_r1), db) \<and>
   run_r1 ctx Help userID db = (Inr \<lparr>Text = help_r1\<rparr>, db)"
  by (simp add: run_r3_def run_r2_def run_r1_def)

text \<open>
  C3, as the code has it. In every revision \<open>HandleChat\<close> (for a request without a card
  action) is the execution of the one intent that the trimmed text classifies to.
  In revision 3 the classification is first-match-wins over the ordered patterns
  \<open>add <content>\<close>, \<open>list\<close>, \<open>done <digits>\<close>, \<open>edit <digits> <content>\<close> and \<open>test\<close>; a
  text that matches none of the five is Help, whose reply is the fixed usage message, and
  \<open>test\<close> has a fixed reply of its own. Revisions 1 and 2 have the first three patterns
  only: what revision 3 reads as Edit or Test is Help there. At most one of the five
  patterns matches a text. The text \<open>list\<close> does not match the \<open>add\<close> pattern, and
  \<open>done 12\<close> is Done with the id 12.
\<close>

theorem C3_command_classification:
  "HandleChat_r1 ctx rq db =
     run_r1 ctx (classify_r1 (TrimSpace (MessageText (Message rq)))) (userID_of rq) db \<and>
   (Action req = None \<longrightarrow>
      HandleChat_r2 ctx req db =
        run_r2 ctx (classify_r1 (TrimSpace (MessageText (Message req)))) (userID_of req) db \<and>
      HandleChat_r3 ctx req db =
        run_r3 ctx (classify_r3 (TrimSpace (MessageText (Message req)))) (userID_of req) db) \<and>
   ((\<forall>m. addCmd t = Some m \<longrightarrow> classify_r3 t = Add (TrimSpace m)) \<and>
    (addCmd t = None \<and> listCmd t \<longrightarrow> classify_r3 t = List) \<and>
    (\<forall>m. addCmd t = None \<and> \<not> listCmd t \<and> doneCmd t = Some m \<longrightarrow>
       classify_r3 t = Done (fst (Atoi m))) \<and>
    (\<forall>m1 m2. addCmd t = None \<and> \<not> listCmd t \<and> doneCmd t = None \<and> editCmd t = Some (m1, m2) \<longrightarrow>
       classify_r3 t = Edit (fst (Atoi m1)) (TrimSpace m2)) \<and>
    (addCmd t = None \<and> \<not> listCmd t \<and> doneCmd t = None \<and> editCmd t = None \<and> testCmd t \<longrightarrow>
       classify_r3 t = Test) \<and>
    (addCmd t = None \<and> \<not> listCmd t \<and> doneCmd t = None \<and> editCmd t = None \<and> \<not> testCmd t \<longrightarrow>
       classify_r3 t = Help) \<and>
    classify_r1 t = (case classify_r3 t of Edit taskID content \<Rightarrow> Help | Test \<Rightarrow> Help | i \<Rightarrow> i)) \<and>
   length (filter id [addCmd t \<noteq> None, listCmd t, doneCmd t \<noteq> None, editCmd t \<noteq> None,
                      testCmd t]) \<le> 1 \<and>
   (run_r3 ctx Help userID db = (Inr (text_reply help_r3), db) \<and>
    run_r3 ctx Test userID db = (Inr (text_reply test_reply), db) \<and>
    run_r2 ctx Help userID db = (Inr (text_reply help_r1), db) \<and>
    run_r1 ctx Help userID db = (Inr \<lparr>Text = help_r1\<rparr>, db)) \<and>
   (addCmd ''list'' = None \<and> classify_r3 ''list'' = List \<and> doneCmd ''done 12'' = Some ''12'' \<and>
    classify_r3 ''done 12'' = Done 12)"
proof -
  have two: "Action req = None \<longrightarrow>
      HandleChat_r2 ctx req db =
        run_r2 ctx (classify_r1 (TrimSpace (MessageText (Message req)))) (userID_of req) db \<and>
      HandleChat_r3 ctx req db =
        run_r3 ctx (classify_r3 (TrimSpace (MessageText (Message req)))) (userID_of req) db"
    using HandleChat_r2_classified [of req ctx db] HandleChat_r3_classified [of req ctx db]
    by blast
  show ?thesis
    by (rule conjI [OF HandleChat_r1_classified conjI [OF two conjI [OF classify_order
        conjI [OF patterns_exclusive conjI [OF run_static classify_examples]]]]])
qed

theorem C3_command_classification_witness:
  "HandleChat_r3 [] (say ''bob'' [] '' done 12 '') example_db = run_r3 [] (Done 12) ''bob'' example_db \<and>
   HandleChat_r3 [] (say ''bob'' [] ''list'') example_db = run_r3 [] List ''bob'' example_db \<and>
   HandleChat_r3 [] (say ''bob'' [] ''add  Buy bread'') example_db =
     run_r3 [] (Add ''Buy bread'') ''bob'' example_db \<and>
   HandleChat_r3 [] (say ''bob'' [] ''edit 2 Call Ann'') example_db =
     run_r3 [] (Edit 2 ''Call Ann'') ''bob'' example_db \<and>
   HandleChat_r3 [] (say ''bob'' [] ''test'') example_db = (Inr (text_reply test_reply), example_db) \<and>
   HandleChat_r3 [] (say ''bob'' [] ''remove 2'') example_db = (Inr (text_reply help_r3), example_db) \<and>
   HandleChat_r2 [] (say ''bob'' [] ''edit 2 Call Ann'') example_db =
     (Inr (text_reply help_r1), example_db)"
proof -
  have u: "userID_of (say ''bob'' [] x) = ''bob''" "Action (say ''bob'' [] x) = None"
    "MessageText (Message (say ''bob'' [] x)) = x" for x
    by (simp_all add: userID_of_def say_def)
  have t: "TrimSpace '' done 12 '' = ''done 12''" "TrimSpace ''list'' = ''list''"
    "TrimSpace ''add  Buy bread'' = ''add  Buy bread''"
    "TrimSpace ''edit 2 Call Ann'' = ''edit 2 Call Ann''"
    "TrimSpace ''test'' = ''test''" "TrimSpace ''remove 2'' = ''remove 2''"
    "TrimSpace ''Buy bread'' = ''Buy bread''" "TrimSpace ''Call Ann'' = ''Call Ann''"
    by (simp_all add: trim_defs)
  have a: "Atoi ''12'' = (12, None)" "Atoi ''2'' = (2, None)"
    by (simp_all add: atoi_defs)
  have c1: "addCmd ''done 12'' = None \<and> \<not> listCmd ''done 12'' \<and> doneCmd ''done 12'' = Some ''12''"
    and c2: "addCmd ''list'' = None \<and> listCmd ''list''"
    and c3: "addCmd ''add  Buy bread'' = Some ''Buy bread''"
    and c4: "addCmd ''edit 2 Call Ann'' = None \<and> \<not> listCmd ''edit 2 Call Ann'' \<and>
             doneCmd ''edit 2 Call Ann'' = None \<and>
             editCmd ''edit 2 Call Ann'' = Some (''2'', ''Call Ann'')"
    and c5: "addCmd ''test'' = None \<and> \<not> listCmd ''test'' \<and> doneCmd ''test'' = None \<and>
             editCmd ''test'' = None \<and> testCmd ''test''"
    and c6: "addCmd ''remove 2'' = None \<and> \<not> listCmd ''remove 2'' \<and> doneCmd ''remove 2'' = None \<and>
             editCmd ''remove 2'' = None \<and> \<not> testCmd ''remove 2''"
    by (simp_all add: cmd_defs upt_rec)
  have r1: "HandleChat_r3 [] (say ''bob'' [] '' done 12 '') example_db =
      run_r3 [] (Done 12) ''bob'' example_db"
    using C3_command_classification [where ctx = "[]" and db = example_db and userID = "''bob''"
        and rq = "say ''bob'' [] '' done 12 ''" and req = "say ''bob'' [] '' done 12 ''" and t = "''done 12''"] u t a c1 by simp
  have r2: "HandleChat_r3 [] (say ''bob'' [] ''list'') example_db = run_r3 [] List ''bob'' example_db"
    using C3_command_classification [where ctx = "[]" and db = example_db and userID = "''bob''"
        and rq = "say ''bob'' [] ''list''" and req = "say ''bob'' [] ''list''" and t = "''list''"] u t c2 by simp
  have r3: "HandleChat_r3 [] (say ''bob'' [] ''add  Buy bread'') example_db =
     run_r3 [] (Add ''Buy bread'') ''bob'' example_db"
    using C3_command_classification [where ctx = "[]" and db = example_db and userID = "''bob''"
        and rq = "say ''bob'' [] ''add  Buy bread''" and req = "say ''bob'' [] ''add  Buy bread''" and t = "''add  Buy bread''"] u t c3 by simp
  have r4: "HandleChat_r3 [] (say ''bob'' [] ''edit 2 Call Ann'') example_db =
     run_r3 [] (Edit 2 ''Call Ann'') ''bob'' example_db \<and>
     HandleChat_r2 [] (say ''bob'' [] ''edit 2 Call Ann'') example_db =
     (Inr (text_reply help_r1), example_db)"
    using C3_command_classification [where ctx = "[]" and db = example_db and userID = "''bob''"
        and rq = "say ''bob'' [] ''edit 2 Call Ann''" and req = "say ''bob'' [] ''edit 2 Call Ann''" and t = "''edit 2 Call Ann''"] u t a c4 by simp
  have r5: "HandleChat_r3 [] (say ''bob'' [] ''test'') example_db =
      (Inr (text_reply test_reply), example_db)"
    using C3_command_classification [where ctx = "[]" and db = example_db and userID = "''bob''"
        and rq = "say ''bob'' [] ''test''" and req = "say ''bob'' [] ''test''" and t = "''test''"] u t c5 by simp
  have r6: "HandleChat_r3 [] (say ''bob'' [] ''remove 2'') example_db =
      (Inr (text_reply help_r3), example_db)"
    using C3_command_classification [where ctx = "[]" and db = example_db and userID = "''bob''"
        and rq = "say ''bob'' [] ''remove 2''" and req = "say ''bob'' [] ''remove 2''" and t = "''remove 2''"] u t c6 by simp
  from r1 r2 r3 r4 r5 r6 show ?thesis by simp
qed

text \<open>
  C3, as the claim states it, fails: the text \<open>test\<close> matches none of the four patterns
  \<open>add\<close>, \<open>list\<close>, \<open>done\<close>, \<open>edit\<close>, and the reply of revision 3 is the test reply, not
  the usage message; and \<open>edit 1 x\<close> matches the \<open>edit\<close> pattern, and the reply of
  revision 2 is its usage message.
\<close>

theorem C3_test_command_counterexample:
  "addCmd ''test'' = None \<and> \<not> listCmd ''test'' \<and> doneCmd ''test'' = None \<and>
   editCmd ''test'' = None \<and>
   HandleChat_r3 [] (say ''bob'' [] ''test'') example_db =
     (Inr (text_reply test_reply), example_db) \<and>
   text_reply test_reply \<noteq> text_reply help_r3 \<and>
   editCmd ''edit 1 x'' = Some (''1'', ''x'') \<and>
   HandleChat_r2 [] (say ''bob'' [] ''edit 1 x'') example_db =
     (Inr (text_reply help_r1), example_db)"
  by (simp add: HandleChat_r3_def HandleChat_r2_def say_def trim_defs cmd_defs text_reply_def test_reply_def
      help_r3_def test_tube_def upt_rec)

text \<open>
  C8. The text \<open>done 9223372036854775808\<close> matches the \<open>done\<close> pattern, and
  \<open>strconv.Atoi\<close> of its digits fails with a range error and the value
  9223372036854775807. \<open>HandleChat\<close> drops the error and goes on with that value: the
  reply names a task id that the sender did not write. The card action path checks the
  same error and answers with the invalid-task-id reply.
\<close>

theorem C8_done_overflow:
  "doneCmd ''done 9223372036854775808'' = Some ''9223372036854775808'' \<and>
   Atoi ''9223372036854775808'' = (9223372036854775807, Some ErrRange) \<and>
   HandleChat_r1 [] (say ''bob'' [] ''done 9223372036854775808'') example_db =
     (Inr \<lparr>Text = not_found 9223372036854775807\<rparr>, example_db) \<and>
   HandleChat_r3 [] (say ''bob'' [] ''done 9223372036854775808'') example_db =
     (Inr (text_reply (not_found 9223372036854775807)), example_db) \<and>
   handleCardAction_r3 [] (click ''bob'' [] ''markDone'' [(''taskId'', ''9223372036854775808'')])
       example_db =
     (Inr invalid_task_id, example_db)"
proof -
  have t: "TrimSpace ''done 9223372036854775808'' = ''done 9223372036854775808''"
    by (simp add: trim_defs)
  have d: "addCmd ''done 9223372036854775808'' = None \<and>
           \<not> listCmd ''done 9223372036854775808'' \<and>
           doneCmd ''done 9223372036854775808'' = Some ''9223372036854775808''"
    by (simp add: cmd_defs)
  have a: "Atoi ''9223372036854775808'' = (9223372036854775807, Some ErrRange)"
    by (simp add: atoi_defs)
  have m1: "markTaskDone_r1 [] 9223372036854775807 ''bob'' example_db =
      (Inr (not_found 9223372036854775807), example_db)"
    by (simp add: markTaskDone_r1_def UPDATE_done_def round_trip_def example_db_def owned_def)
  have m3: "markTaskDone_r3 [] 9223372036854775807 ''bob'' example_db =
      (Inr (text_reply (not_found 9223372036854775807)), example_db)"
    by (simp add: markTaskDone_r3_def UPDATE_done_def round_trip_def example_db_def owned_def)
  have h1: "HandleChat_r1 [] (say ''bob'' [] ''done 9223372036854775808'') example_db =
     (Inr \<lparr>Text = not_found 9223372036854775807\<rparr>, example_db)"
    using t d a m1 by (simp add: HandleChat_r1_def say_def userID_of_def)
  have h3: "HandleChat_r3 [] (say ''bob'' [] ''done 9223372036854775808'') example_db =
     (Inr (text_reply (not_found 9223372036854775807)), example_db)"
    using t d a m3 by (simp add: HandleChat_r3_def say_def userID_of_def)
  have c: "handleCardAction_r3 [] (click ''bob'' [] ''markDone'' [(''taskId'', ''9223372036854775808'')])
       example_db = (Inr invalid_task_id, example_db)"
    using a by (simp add: handleCardAction_r3_def click_def make_params_def index_def)
  from d a h1 h3 c show ?thesis by simp
qed

subsection \<open>Owner scoping\<close>

lemma foreign_after_update:
  "(\<And>r. col_user_id (f r) = col_user_id r) \<Longrightarrow>
   filter (\<lambda>r. col_user_id r \<noteq> u) (map (\<lambda>r. if owned t u r then f r else r) xs) =
   filter (\<lambda>r. col_user_id r \<noteq> u) xs"
  by (induction xs) (auto simp: owned_def)

lemma own_after_update:
  "(\<And>r. col_user_id (f r) = col_user_id r) \<Longrightarrow>
   filter (\<lambda>r. col_user_id r = u) (map (\<lambda>r. if owned t u r then f r else r) xs) =
   map (\<lambda>r. if col_id r = t then f r else r) (filter (\<lambda>r. col_user_id r = u) xs)"
  by (induction xs) (auto simp: owned_def)

lemma owned_among_own:
  "filter (owned t u) xs = filter (\<lambda>r. col_id r = t) (filter (\<lambda>r. col_user_id r = u) xs)"
  by (induction xs) (auto simp: owned_def)

lemma foreign_after_delete:
  "filter (\<lambda>r. col_user_id r \<noteq> u) (filter (\<lambda>r. \<not> owned t u r) xs) =
   filter (\<lambda>r. col_user_id r \<noteq> u) xs"
  by (induction xs) (auto simp: owned_def)

lemma own_after_delete:
  "filter (\<lambda>r. col_user_id r = u) (filter (\<lambda>r. \<not> owned t u r) xs) =
   filter (\<lambda>r. col_id r \<noteq> t) (filter (\<lambda>r. col_user_id r = u) xs)"
  by (induction xs) (auto simp: owned_def)

lemma foreign_rows_update:
  "(\<And>r. col_user_id (f r) = col_user_id r) \<Longrightarrow>
   foreign_rows u (db\<lparr>tasks := map (\<lambda>r. if owned t u r then f r else r) (tasks db)\<rparr>) =
   foreign_rows u db"
  by (simp add: foreign_rows_def foreign_after_update)

lemma own_rows_update:
  "(\<And>r. col_user_id (f r) = col_user_id r) \<Longrightarrow>
   own_rows u (db\<lparr>tasks := map (\<lambda>r. if owned t u r then f r else r) (tasks db)\<rparr>) =
   map (\<lambda>r. if col_id r = t then f r else r) (own_rows u db)"
  by (simp add: own_rows_def own_after_update)

lemma foreign_rows_delete:
  "foreign_rows u (db\<lparr>tasks := filter (\<lambda>r. \<not> owned t u r) (tasks db)\<rparr>) = foreign_rows u db"
  using foreign_after_delete [of u t "tasks db"] by (simp add: foreign_rows_def del: filter_filter)

lemma own_rows_delete:
  "own_rows u (db\<lparr>tasks := filter (\<lambda>r. \<not> owned t u r) (tasks db)\<rparr>) =
   filter (\<lambda>r. col_id r \<noteq> t) (own_rows u db)"
  using own_after_delete [of u t "tasks db"] by (simp add: own_rows_def del: filter_filter)

lemma owned_rows:
  "filter (owned t u) (tasks db) = filter (\<lambda>r. col_id r = t) (own_rows u db)"
  using owned_among_own [of t u "tasks db"] by (simp add: own_rows_def del: filter_filter)

lemma rows_insert:
  "own_rows u (db\<lparr>tasks := tasks db @ [\<lparr>col_id = i, col_content = c, col_done = d, col_user_id = u\<rparr>],
                  tasks_id_seq := n\<rparr>) =
     own_rows u db @ [\<lparr>col_id = i, col_content = c, col_done = d, col_user_id = u\<rparr>]"
  "foreign_rows u (db\<lparr>tasks := tasks db @ [\<lparr>col_id = i, col_content = c, col_done = d, col_user_id = u\<rparr>],
                      tasks_id_seq := n\<rparr>) = foreign_rows u db"
  by (simp_all add: own_rows_def foreign_rows_def)

lemma select_rows:
  "filter (\<lambda>r. col_user_id r = u) (tasks db) = own_rows u db"
  by (simp add: own_rows_def)

lemmas scope_rows = foreign_rows_update own_rows_update foreign_rows_delete own_rows_delete
  owned_rows rows_insert select_rows

lemma scoped_UPDATE_done: "owner_scoped u (UPDATE_done ctx t u)"
  by (cases "round_trip ctx") (simp_all add: owner_scoped_def UPDATE_done_def scope_rows)

lemma scoped_UPDATE_content: "owner_scoped u (UPDATE_content ctx c t u)"
  by (cases "round_trip ctx") (simp_all add: owner_scoped_def UPDATE_content_def scope_rows)

lemma scoped_DELETE_task: "owner_scoped u (DELETE_task ctx t u)"
  by (cases "round_trip ctx") (simp_all add: owner_scoped_def DELETE_task_def scope_rows)

lemma scoped_INSERT_task: "owner_scoped u (INSERT_task ctx c u)"
  by (cases "round_trip ctx") (simp_all add: owner_scoped_def INSERT_task_def scope_rows)

lemma scoped_SELECT_tasks: "owner_scoped u (\<lambda>db. (SELECT_tasks ctx u db, db))"
  by (cases "round_trip ctx") (simp_all add: owner_scoped_def SELECT_tasks_def scope_rows)

lemma scoped_SELECT_content: "owner_scoped u (\<lambda>db. (SELECT_content ctx t u db, db))"
  by (cases "round_trip ctx") (simp_all add: owner_scoped_def SELECT_content_def scope_rows)

lemma scoped_return: "owner_scoped u (\<lambda>db. (x, db))"
  by (simp add: owner_scoped_def)

lemma scoped_bind:
  assumes "owner_scoped u f" and "\<And>x. owner_scoped u (g x)"
  shows "owner_scoped u (\<lambda>db. case f db of (x, db') \<Rightarrow> g x db')"
proof -
  have f1: "foreign_rows u (snd (f d)) = foreign_rows u d" for d
    using assms(1) unfolding owner_scoped_def by blast
  have g1: "foreign_rows u (snd (g x d)) = foreign_rows u d" for x d
    using assms(2) [of x] unfolding owner_scoped_def by blast
  have f2: "fst (f d) = fst (f d') \<and> own_rows u (snd (f d)) = own_rows u (snd (f d')) \<and>
            tasks_id_seq (snd (f d)) = tasks_id_seq (snd (f d'))"
    if "own_rows u d = own_rows u d'" "tasks_id_seq d = tasks_id_seq d'" for d d'
    using assms(1) that unfolding owner_scoped_def by blast
  have g2: "fst (g x d) = fst (g x d') \<and> own_rows u (snd (g x d)) = own_rows u (snd (g x d')) \<and>
            tasks_id_seq (snd (g x d)) = tasks_id_seq (snd (g x d'))"
    if "own_rows u d = own_rows u d'" "tasks_id_seq d = tasks_id_seq d'" for x d d'
    using assms(2) [of x] that unfolding owner_scoped_def by blast
  show ?thesis
    unfolding owner_scoped_def
  proof (intro conjI allI impI)
    fix db
    show "foreign_rows u (snd (case f db of (x, db') \<Rightarrow> g x db')) = foreign_rows u db"
      using g1 [of "fst (f db)" "snd (f db)"] f1 [of db] by (simp add: split_beta)
  next
    fix db db'
    assume a: "own_rows u db = own_rows u db' \<and> tasks_id_seq db = tasks_id_seq db'"
    then have f: "fst (f db) = fst (f db') \<and> own_rows u (snd (f db)) = own_rows u (snd (f db')) \<and>
            tasks_id_seq (snd (f db)) = tasks_id_seq (snd (f db'))"
      using f2 [of db db'] by blast
    then have g: "fst (g (fst (f db)) (snd (f db))) = fst (g (fst (f db)) (snd (f db'))) \<and>
       own_rows u (snd (g (fst (f db)) (snd (f db)))) = own_rows u (snd (g (fst (f db)) (snd (f db')))) \<and>
       tasks_id_seq (snd (g (fst (f db)) (snd (f db)))) =
       tasks_id_seq (snd (g (fst (f db)) (snd (f db'))))"
      using g2 [of "snd (f db)" "snd (f db')" "fst (f db)"] by blast
    from f have e: "fst (f db') = fst (f db)" by simp
    show "fst (case f db of (x, db') \<Rightarrow> g x db') = fst (case f db' of (x, db') \<Rightarrow> g x db')"
      and "own_rows u (snd (case f db of (x, db') \<Rightarrow> g x db')) =
           own_rows u (snd (case f db' of (x, db') \<Rightarrow> g x db'))"
      and "tasks_id_seq (snd (case f db of (x, db') \<Rightarrow> g x db')) =
           tasks_id_seq (snd (case f db' of (x, db') \<Rightarrow> g x db'))"
      using g by (simp_all add: split_beta e)
  qed
qed

lemma scoped_cases:
  assumes "owner_scoped u f" and "\<And>err. owner_scoped u (h err)" and "\<And>n. owner_scoped u (k n)"
  shows "owner_scoped u
           (\<lambda>db. case f db of (Inl err, db') \<Rightarrow> h err db' | (Inr n, db') \<Rightarrow> k n db')"
proof -
  have "owner_scoped u (\<lambda>db. case f db of (x, db') \<Rightarrow> (case x of Inl err \<Rightarrow> h err | Inr n \<Rightarrow> k n) db')"
    by (rule scoped_bind [OF assms(1)]) (simp add: assms(2,3) split: sum.split)
  moreover have "(\<lambda>db. case f db of (x, db') \<Rightarrow> (case x of Inl err \<Rightarrow> h err | Inr n \<Rightarrow> k n) db') =
      (\<lambda>db. case f db of (Inl err, db') \<Rightarrow> h err db' | (Inr n, db') \<Rightarrow> k n db')"
    by (auto simp: fun_eq_iff split: prod.splits sum.splits)
  ultimately show ?thesis by simp
qed

lemma scoped_read:
  assumes "owner_scoped u (\<lambda>db. (q db, db))"
  shows "owner_scoped u (\<lambda>db. (case q db of Inl err \<Rightarrow> h err | Inr x \<Rightarrow> k x, db))"
proof -
  have q: "q d = q d'" if "own_rows u d = own_rows u d'" "tasks_id_seq d = tasks_id_seq d'" for d d'
    using assms that unfolding owner_scoped_def fst_conv snd_conv by blast
  show ?thesis
    unfolding owner_scoped_def fst_conv snd_conv
  proof (intro conjI allI impI)
    fix db db'
    assume a: "own_rows u db = own_rows u db' \<and> tasks_id_seq db = tasks_id_seq db'"
    then have "q db = q db'" using q by blast
    then show "(case q db of Inl err \<Rightarrow> h err | Inr x \<Rightarrow> k x) =
               (case q db' of Inl err \<Rightarrow> h err | Inr x \<Rightarrow> k x)"
      by simp
    from a show "own_rows u db = own_rows u db'" and "tasks_id_seq db = tasks_id_seq db'"
      by simp_all
  qed simp
qed

lemma scoped_if:
  "owner_scoped u f \<Longrightarrow> owner_scoped u g \<Longrightarrow> owner_scoped u (\<lambda>db. if b then f db else g db)"
  by (cases b) simp_all

lemma scoped_listTasks_r1: "owner_scoped u (\<lambda>db. (listTasks_r1 ctx u db, db))"
  unfolding listTasks_r1_def by (rule scoped_read [OF scoped_SELECT_tasks])

lemma scoped_listTasks_r2: "owner_scoped u (\<lambda>db. (listTasks_r2 ctx u db, db))"
  unfolding listTasks_r2_def by (rule scoped_read [OF scoped_SELECT_tasks])

lemma scoped_listTasks_r3: "owner_scoped u (\<lambda>db. (listTasks_r3 ctx u db, db))"
  unfolding listTasks_r3_def by (rule scoped_read [OF scoped_SELECT_tasks])

lemma scoped_showEditForm_r2: "owner_scoped u (\<lambda>db. (showEditForm_r2 ctx t u db, db))"
  unfolding showEditForm_r2_def by (rule scoped_read [OF scoped_SELECT_content])

lemma scoped_showEditForm_r3: "owner_scoped u (\<lambda>db. (showEditForm_r3 ctx t u db, db))"
  unfolding showEditForm_r3_def by (rule scoped_read [OF scoped_SELECT_content])

lemma scoped_addTask_r1: "owner_scoped u (addTask_r1 ctx c u)"
  unfolding addTask_r1_def by (rule scoped_cases [OF scoped_INSERT_task]) (rule scoped_return)+

lemma scoped_addTask_r2: "owner_scoped u (addTask_r2 ctx c u)"
  unfolding addTask_r2_def by (rule scoped_cases [OF scoped_INSERT_task]) (rule scoped_return)+

lemma scoped_addTask_r3: "owner_scoped u (addTask_r3 ctx c u)"
  unfolding addTask_r3_def by (rule scoped_cases [OF scoped_INSERT_task]) (rule scoped_return)+

lemma scoped_markTaskDone_r1: "owner_scoped u (markTaskDone_r1 ctx t u)"
  unfolding markTaskDone_r1_def
  by (rule scoped_cases [OF scoped_UPDATE_done]) (intro scoped_if scoped_return)+

lemma scoped_markTaskDone_r2: "owner_scoped u (markTaskDone_r2 ctx t u)"
  unfolding markTaskDone_r2_def
  by (rule scoped_cases [OF scoped_UPDATE_done]) (intro scoped_if scoped_return scoped_listTasks_r2)+

lemma scoped_markTaskDone_r3: "owner_scoped u (markTaskDone_r3 ctx t u)"
  unfolding markTaskDone_r3_def
  by (rule scoped_cases [OF scoped_UPDATE_done]) (intro scoped_if scoped_return)+

lemma scoped_deleteTask_r2: "owner_scoped u (deleteTask_r2 ctx t u)"
  unfolding deleteTask_r2_def
  by (rule scoped_cases [OF scoped_DELETE_task]) (intro scoped_if scoped_return scoped_listTasks_r2)+

lemma scoped_deleteTask_r3: "owner_scoped u (deleteTask_r3 ctx t u)"
  unfolding deleteTask_r3_def
  by (rule scoped_cases [OF scoped_DELETE_task]) (intro scoped_if scoped_return)+

lemma scoped_editTask_r2: "owner_scoped u (editTask_r2 ctx t c u)"
  unfolding editTask_r2_def
  by (rule scoped_if, rule scoped_return, rule scoped_cases [OF scoped_UPDATE_content])
     (intro scoped_if scoped_return scoped_listTasks_r2)+

lemma scoped_editTask_r3: "owner_scoped u (editTask_r3 ctx t c u)"
  unfolding editTask_r3_def
  by (rule scoped_if, rule scoped_return, rule scoped_cases [OF scoped_UPDATE_content])
     (intro scoped_if scoped_return)+

lemma map_update_ids:
  "(\<And>r. col_id (f r) = col_id r) \<Longrightarrow> map col_id (map (\<lambda>r. if p r then f r else r) xs) = map col_id xs"
  by (induction xs) auto

lemma well_formed_kept:
  assumes "well_formed db"
  shows "well_formed (snd (INSERT_task ctx c u db))"
    and "well_formed (snd (UPDATE_done ctx t u db))"
    and "well_formed (snd (UPDATE_content ctx c t u db))"
    and "well_formed (snd (DELETE_task ctx t u db))"
proof -
  show "well_formed (snd (INSERT_task ctx c u db))"
    using assms by (cases "round_trip ctx") (force simp: well_formed_def INSERT_task_def)+
  have ids: "map col_id (map (\<lambda>r. if owned t u r then f r else r) (tasks db)) = map col_id (tasks db)"
    if "\<And>r. col_id (f r) = col_id r" for f
    using that by (rule map_update_ids)
  have bound: "\<forall>r \<in> set (map (\<lambda>r. if owned t u r then f r else r) (tasks db)). col_id r < tasks_id_seq db"
    if "\<And>r. col_id (f r) = col_id r" for f
    using assms that by (auto simp: well_formed_def)
  show "well_formed (snd (UPDATE_done ctx t u db))"
    using assms ids [of "\<lambda>r. r\<lparr>col_done := True\<rparr>"] bound [of "\<lambda>r. r\<lparr>col_done := True\<rparr>"]
    by (cases "round_trip ctx") (simp_all add: well_formed_def UPDATE_done_def del: map_map set_map)
  show "well_formed (snd (UPDATE_content ctx c t u db))"
    using assms ids [of "\<lambda>r. r\<lparr>col_content := c\<rparr>"] bound [of "\<lambda>r. r\<lparr>col_content := c\<rparr>"]
    by (cases "round_trip ctx") (simp_all add: well_formed_def UPDATE_content_def del: map_map set_map)
  show "well_formed (snd (DELETE_task ctx t u db))"
    using assms
    by (cases "round_trip ctx") (simp_all add: well_formed_def DELETE_task_def distinct_map_filter)
qed

lemma foreign_task_no_match:
  assumes "distinct (map col_id (tasks db))" and "r \<in> set (tasks db)"
    and "col_id r = taskID" and "col_user_id r = A" and "A \<noteq> B"
  shows "\<not> (\<exists>x \<in> set (tasks db). owned taskID B x)"
proof
  assume "\<exists>x \<in> set (tasks db). owned taskID B x"
  then obtain x where x: "x \<in> set (tasks db)" "col_id x = taskID" "col_user_id x = B"
    by (auto simp: owned_def)
  from assms(1,2) x(1) have "x = r"
    by (rule same_id_same_row) (simp add: x(2) assms(3))
  with x(3) assms(4,5) show False by simp
qed

lemma edit_outcomes:
  "round_trip ctx = Some msg \<Longrightarrow> c \<noteq> [] \<Longrightarrow>
     editTask_r2 ctx t c u db = (Inl (ErrStorage msg), db) \<and>
     editTask_r3 ctx t c u db = (Inl (ErrStorage msg), db)"
  "round_trip ctx = None \<Longrightarrow> c \<noteq> [] \<Longrightarrow> \<not> (\<exists>r \<in> set (tasks db). owned t u r) \<Longrightarrow>
     editTask_r2 ctx t c u db = (Inr (text_reply (not_found t)), db) \<and>
     editTask_r3 ctx t c u db = (Inr (text_reply (not_found t)), db)"
  using no_rows_affected [of db t u]
  by (simp_all add: editTask_r2_def editTask_r3_def UPDATE_content_def)


lemma foreign_task_outcomes:
  assumes "distinct (map col_id (tasks db))" and "r \<in> set (tasks db)"
    and "col_id r = taskID" and "col_user_id r = A" and "A \<noteq> B"
  shows "snd (markTaskDone_r1 ctx taskID B db) = db \<and>
         snd (markTaskDone_r2 ctx taskID B db) = db \<and>
         snd (markTaskDone_r3 ctx taskID B db) = db \<and>
         snd (deleteTask_r2 ctx taskID B db) = db \<and>
         snd (deleteTask_r3 ctx taskID B db) = db \<and>
         snd (editTask_r2 ctx taskID newContent B db) = db \<and>
         snd (editTask_r3 ctx taskID newContent B db) = db"
    and "round_trip ctx = None \<longrightarrow>
         fst (markTaskDone_r1 ctx taskID B db) = Inr (not_found taskID) \<and>
         fst (markTaskDone_r2 ctx taskID B db) = Inr (text_reply (not_found taskID)) \<and>
         fst (markTaskDone_r3 ctx taskID B db) = Inr (text_reply (not_found taskID)) \<and>
         fst (deleteTask_r2 ctx taskID B db) = Inr (text_reply (not_found taskID)) \<and>
         fst (deleteTask_r3 ctx taskID B db) = Inr (text_reply (not_found taskID)) \<and>
         (newContent \<noteq> [] \<longrightarrow>
            fst (editTask_r2 ctx taskID newContent B db) = Inr (text_reply (not_found taskID)) \<and>
            fst (editTask_r3 ctx taskID newContent B db) = Inr (text_reply (not_found taskID)))"
proof -
  note none = foreign_task_no_match [OF assms]
  have e: "snd (editTask_r2 ctx taskID [] B db) = db \<and> snd (editTask_r3 ctx taskID [] B db) = db"
    by (simp add: editTask_r2_def editTask_r3_def)
  show "snd (markTaskDone_r1 ctx taskID B db) = db \<and>
         snd (markTaskDone_r2 ctx taskID B db) = db \<and>
         snd (markTaskDone_r3 ctx taskID B db) = db \<and>
         snd (deleteTask_r2 ctx taskID B db) = db \<and>
         snd (deleteTask_r3 ctx taskID B db) = db \<and>
         snd (editTask_r2 ctx taskID newContent B db) = db \<and>
         snd (editTask_r3 ctx taskID newContent B db) = db"
  proof (cases "round_trip ctx")
    case None
    from zero_rows_not_found [OF None none] edit_outcomes(2) [OF None _ none, of newContent] e
    show ?thesis by (cases "newContent = []") simp_all
  next
    case (Some msg)
    from storage_failure_propagated [OF Some, of taskID B db]
      edit_outcomes(1) [OF Some, of newContent taskID B db] e
    show ?thesis by (cases "newContent = []") simp_all
  qed
  show "round_trip ctx = None \<longrightarrow>
         fst (markTaskDone_r1 ctx taskID B db) = Inr (not_found taskID) \<and>
         fst (markTaskDone_r2 ctx taskID B db) = Inr (text_reply (not_found taskID)) \<and>
         fst (markTaskDone_r3 ctx taskID B db) = Inr (text_reply (not_found taskID)) \<and>
         fst (deleteTask_r2 ctx taskID B db) = Inr (text_reply (not_found taskID)) \<and>
         fst (deleteTask_r3 ctx taskID B db) = Inr (text_reply (not_found taskID)) \<and>
         (newContent \<noteq> [] \<longrightarrow>
            fst (editTask_r2 ctx taskID newContent B db) = Inr (text_reply (not_found taskID)) \<and>
            fst (editTask_r3 ctx taskID newContent B db) = Inr (text_reply (not_found taskID)))"
  proof (intro impI)
    assume n: "round_trip ctx = None"
    from zero_rows_not_found [OF n none] edit_outcomes(2) [OF n _ none, of newContent]
    show "fst (markTaskDone_r1 ctx taskID B db) = Inr (not_found taskID) \<and>
         fst (markTaskDone_r2 ctx taskID B db) = Inr (text_reply (not_found taskID)) \<and>
         fst (markTaskDone_r3 ctx taskID B db) = Inr (text_reply (not_found taskID)) \<and>
         fst (deleteTask_r2 ctx taskID B db) = Inr (text_reply (not_found taskID)) \<and>
         fst (deleteTask_r3 ctx taskID B db) = Inr (text_reply (not_found taskID)) \<and>
         (newContent \<noteq> [] \<longrightarrow>
            fst (editTask_r2 ctx taskID newContent B db) = Inr (text_reply (not_found taskID)) \<and>
            fst (editTask_r3 ctx taskID newContent B db) = Inr (text_reply (not_found taskID)))"
      by simp
  qed
qed

lemma all_operations_scoped:
  "owner_scoped u (addTask_r1 c content u) \<and>
   owner_scoped u (\<lambda>db. (listTasks_r1 c u db, db)) \<and>
   owner_scoped u (markTaskDone_r1 c t u) \<and>
   owner_scoped u (addTask_r2 c content u) \<and>
   owner_scoped u (\<lambda>db. (listTasks_r2 c u db, db)) \<and>
   owner_scoped u (markTaskDone_r2 c t u) \<and>
   owner_scoped u (deleteTask_r2 c t u) \<and>
   owner_scoped u (editTask_r2 c t content u) \<and>
   owner_scoped u (\<lambda>db. (showEditForm_r2 c t u db, db)) \<and>
   owner_scoped u (addTask_r3 c content u) \<and>
   owner_scoped u (\<lambda>db. (listTasks_r3 c u db, db)) \<and>
   owner_scoped u (markTaskDone_r3 c t u) \<and>
   owner_scoped u (deleteTask_r3 c t u) \<and>
   owner_scoped u (editTask_r3 c t content u) \<and>
   owner_scoped u (\<lambda>db. (showEditForm_r3 c t u db, db))"
  by (intro conjI scoped_addTask_r1 scoped_addTask_r2 scoped_addTask_r3 scoped_listTasks_r1
      scoped_listTasks_r2 scoped_listTasks_r3 scoped_markTaskDone_r1 scoped_markTaskDone_r2
      scoped_markTaskDone_r3 scoped_deleteTask_r2 scoped_deleteTask_r3 scoped_editTask_r2
      scoped_editTask_r3 scoped_showEditForm_r2 scoped_showEditForm_r3)

subsection \<open>The content that reaches \<open>editTask\<close>\<close>

text \<open>
  No handler calls \<open>editTask\<close> with empty content. \<open>HandleChat\<close> passes the trimmed
  second submatch of the \<open>edit\<close> pattern, which is a non-empty end of a text that is
  itself trimmed; \<open>handleCardAction\<close> with empty or absent content shows the form.
\<close>

lemma find_Some_mem: "find P xs = Some x \<Longrightarrow> x \<in> set xs \<and> P x"
  by (induction xs) (auto split: if_splits)

lemma find_mem_Some: "x \<in> set xs \<Longrightarrow> P x \<Longrightarrow> \<exists>y. find P xs = Some y"
  by (induction xs) auto

lemma trailing_space_iff:
  "trailing_space s \<noteq> 0 \<longleftrightarrow> (\<exists>t \<in> set space_runes. suffix t s)"
proof
  assume "trailing_space s \<noteq> 0"
  then obtain t where "find (\<lambda>t. suffix t s) space_runes = Some t"
    unfolding trailing_space_def by (cases "find (\<lambda>t. suffix t s) space_runes") simp_all
  then show "\<exists>t \<in> set space_runes. suffix t s"
    using find_Some_mem by fastforce
next
  assume "\<exists>t \<in> set space_runes. suffix t s"
  then obtain t where "t \<in> set space_runes" "suffix t s" by blast
  then obtain t' where f: "find (\<lambda>t. suffix t s) space_runes = Some t'"
    using find_mem_Some [of t space_runes "\<lambda>t. suffix t s"] by blast
  then have "t' \<in> set space_runes" using find_Some_mem by fastforce
  then have "0 < length t'" by (rule space_runes_nonempty)
  with f show "trailing_space s \<noteq> 0" by (simp add: trailing_space_def)
qed

lemma TrimLeft_suffix: "suffix (TrimLeft s) s"
proof (induction s rule: TrimLeft.induct)
  case (1 s)
  show ?case
  proof (cases "leading_space s = 0")
    case True
    then have "TrimLeft s = s" by (subst TrimLeft.simps) simp
    then show ?thesis by simp
  next
    case False
    then have "suffix (TrimLeft (drop (leading_space s) s)) (drop (leading_space s) s)"
      by (rule "1.IH")
    then have "suffix (TrimLeft (drop (leading_space s) s)) s"
      by (rule suffix_order.trans) (rule suffix_drop)
    moreover from False have "TrimLeft s = TrimLeft (drop (leading_space s) s)"
      by (subst TrimLeft.simps) simp
    ultimately show ?thesis by simp
  qed
qed

lemma TrimRight_no_trailing: "trailing_space (TrimRight s) = 0"
proof (induction s rule: TrimRight.induct)
  case (1 s)
  show ?case
  proof (cases "trailing_space s = 0")
    case True
    then have "TrimRight s = s" by (subst TrimRight.simps) simp
    with True show ?thesis by simp
  next
    case False
    then have "TrimRight s = TrimRight (take (length s - trailing_space s) s)"
      by (subst TrimRight.simps) simp
    with "1.IH" [OF False] show ?thesis by simp
  qed
qed

lemma trailing_space_suffix:
  assumes "suffix x y" and "trailing_space x \<noteq> 0"
  shows "trailing_space y \<noteq> 0"
proof -
  from assms(2) obtain t where t: "t \<in> set space_runes" "suffix t x"
    unfolding trailing_space_iff by blast
  from t(2) assms(1) have "suffix t y" by (rule suffix_order.trans)
  with t(1) show ?thesis unfolding trailing_space_iff by blast
qed

lemma leading_space_all:
  "s \<noteq> [] \<Longrightarrow> TrimLeft s = [] \<Longrightarrow> trailing_space s \<noteq> 0"
proof (induction s rule: TrimLeft.induct)
  case (1 s)
  show ?case
  proof (cases "leading_space s = 0")
    case True
    then have "TrimLeft s = s" by (subst TrimLeft.simps) simp
    with "1.prems" show ?thesis by simp
  next
    case False
    let ?rest = "drop (leading_space s) s"
    from False have "TrimLeft s = TrimLeft ?rest" by (subst TrimLeft.simps) simp
    with "1.prems" have e: "TrimLeft ?rest = []" by simp
    show ?thesis
    proof (cases "?rest = []")
      case True
      from False obtain t where t: "find (\<lambda>t. prefix t s) space_runes = Some t"
        unfolding leading_space_def by (cases "find (\<lambda>t. prefix t s) space_runes") simp_all
      then have p: "t \<in> set space_runes" "prefix t s"
        using find_Some_mem by fastforce+
      from t have "leading_space s = length t" by (simp add: leading_space_def)
      with True p(2) have "s = t" by (auto simp: prefix_def)
      then have "suffix t s" by simp
      with p(1) show ?thesis unfolding trailing_space_iff by blast
    next
      case nonempty: False
      from "1.IH" [OF False nonempty e] have "trailing_space ?rest \<noteq> 0" .
      then show ?thesis by (rule trailing_space_suffix [OF suffix_drop])
    qed
  qed
qed

lemma TrimRight_empty: "s \<noteq> [] \<Longrightarrow> TrimRight s = [] \<Longrightarrow> trailing_space s \<noteq> 0"
proof -
  assume a: "s \<noteq> []" "TrimRight s = []"
  show "trailing_space s \<noteq> 0"
  proof
    assume "trailing_space s = 0"
    then have "TrimRight s = s" by (subst TrimRight.simps) simp
    with a show False by simp
  qed
qed

lemma TrimSpace_empty:
  assumes "s \<noteq> []" and "TrimSpace s = []"
  shows "trailing_space s \<noteq> 0"
proof (cases "TrimLeft s = []")
  case True
  with assms(1) show ?thesis by (rule leading_space_all)
next
  case False
  from assms(2) have "TrimRight (TrimLeft s) = []" by (simp add: TrimSpace_def)
  with False have "trailing_space (TrimLeft s) \<noteq> 0" by (rule TrimRight_empty)
  then show ?thesis by (rule trailing_space_suffix [OF TrimLeft_suffix])
qed

lemma spaces_then_rest_suffix:
  "spaces_then_rest r = Some m \<Longrightarrow> m \<noteq> [] \<and> suffix m r"
proof -
  assume "spaces_then_rest r = Some m"
  then obtain j where "find (\<lambda>j. dot_plus (drop j r)) (rev [1..<Suc (length (takeWhile re_space r))]) = Some j"
    and m: "m = drop j r"
    unfolding spaces_then_rest_def Let_def by blast
  then have "dot_plus (drop j r)" using find_Some_mem by fastforce
  with m show ?thesis by (simp add: dot_plus_def suffix_drop)
qed

lemma capture_of_trimmed_text:
  assumes "trailing_space t = 0" and "m \<noteq> []" and "suffix m t"
  shows "TrimSpace m \<noteq> []"
proof
  assume "TrimSpace m = []"
  with assms(2) have "trailing_space m \<noteq> 0" by (rule TrimSpace_empty)
  then have "trailing_space t \<noteq> 0" by (rule trailing_space_suffix [OF assms(3)])
  with assms(1) show False by simp
qed

lemma edit_command_content_never_empty:
  assumes "editCmd (TrimSpace s) = Some (m1, m2)"
  shows "TrimSpace m2 \<noteq> []"
proof -
  let ?t = "TrimSpace s"
  from assms have "spaces_then_rest (dropWhile re_digit (dropWhile re_space (drop 4 ?t))) = Some m2"
    by (auto simp: editCmd_def Let_def split: if_splits)
  then have m: "m2 \<noteq> []" "suffix m2 (dropWhile re_digit (dropWhile re_space (drop 4 ?t)))"
    using spaces_then_rest_suffix by blast+
  have "suffix (dropWhile re_digit (dropWhile re_space (drop 4 ?t))) ?t"
    by (meson suffix_dropWhile suffix_drop suffix_order.trans)
  with m(2) have "suffix m2 ?t" by (meson suffix_order.trans)
  moreover have "trailing_space ?t = 0"
    by (simp add: TrimSpace_def TrimRight_no_trailing)
  ultimately show ?thesis using m(1) by (intro capture_of_trimmed_text)
qed

lemma card_action_content_never_empty:
  assumes "Action req = Some action" and "ActionMethodName action = ''editTask''"
    and "Atoi (index (make_params (Parameters action)) ''taskId'') = (taskID, None)"
    and "index (make_params (Parameters action)) ''content'' = []"
  shows "handleCardAction_r2 ctx req db = (showEditForm_r2 ctx taskID (userID_of req) db, db)"
    and "handleCardAction_r3 ctx req db = (showEditForm_r3 ctx taskID (userID_of req) db, db)"
  using assms by (simp_all add: handleCardAction_r2_def handleCardAction_r3_def Let_def)

subsection \<open>A task of another owner\<close>

text \<open>
  C1. In a store whose ids are unique, let a task have the id \<open>taskID\<close> and the owner
  \<open>A\<close>, and let \<open>B\<close> be another owner. Then \<open>markTaskDone\<close>, \<open>deleteTask\<close> and
  \<open>editTask\<close> invoked with \<open>taskID\<close> and \<open>B\<close> return the store as it was, and with it
  that task's row: its content, its done flag and its existence. When the storage round
  trip succeeds they reply not-found; for \<open>editTask\<close> this is the case of new content that
  is not empty, the only content a handler passes to it. Every operation of every
  revision is scoped to the owner it is invoked for: it leaves the rows of the other
  owners as they were, and nothing it returns or writes depends on them.
\<close>

theorem C1_foreign_task_untouched:
  assumes "distinct (map col_id (tasks db))" and "r \<in> set (tasks db)"
    and "col_id r = taskID" and "col_user_id r = A" and "A \<noteq> B"
  shows "(snd (markTaskDone_r1 ctx taskID B db) = db \<and>
          snd (markTaskDone_r2 ctx taskID B db) = db \<and>
          snd (markTaskDone_r3 ctx taskID B db) = db \<and>
          snd (deleteTask_r2 ctx taskID B db) = db \<and>
          snd (deleteTask_r3 ctx taskID B db) = db \<and>
          snd (editTask_r2 ctx taskID newContent B db) = db \<and>
          snd (editTask_r3 ctx taskID newContent B db) = db) \<and>
         (round_trip ctx = None \<longrightarrow>
          fst (markTaskDone_r1 ctx taskID B db) = Inr (not_found taskID) \<and>
          fst (markTaskDone_r2 ctx taskID B db) = Inr (text_reply (not_found taskID)) \<and>
          fst (markTaskDone_r3 ctx taskID B db) = Inr (text_reply (not_found taskID)) \<and>
          fst (deleteTask_r2 ctx taskID B db) = Inr (text_reply (not_found taskID)) \<and>
          fst (deleteTask_r3 ctx taskID B db) = Inr (text_reply (not_found taskID)) \<and>
          (newContent \<noteq> [] \<longrightarrow>
             fst (editTask_r2 ctx taskID newContent B db) = Inr (text_reply (not_found taskID)) \<and>
             fst (editTask_r3 ctx taskID newContent B db) = Inr (text_reply (not_found taskID)))) \<and>
         (owner_scoped u (addTask_r1 c content u) \<and>
          owner_scoped u (\<lambda>db. (listTasks_r1 c u db, db)) \<and>
          owner_scoped u (markTaskDone_r1 c t u) \<and>
          owner_scoped u (addTask_r2 c content u) \<and>
          owner_scoped u (\<lambda>db. (listTasks_r2 c u db, db)) \<and>
          owner_scoped u (markTaskDone_r2 c t u) \<and>
          owner_scoped u (deleteTask_r2 c t u) \<and>
          owner_scoped u (editTask_r2 c t content u) \<and>
          owner_scoped u (\<lambda>db. (showEditForm_r2 c t u db, db)) \<and>
          owner_scoped u (addTask_r3 c content u) \<and>
          owner_scoped u (\<lambda>db. (listTasks_r3 c u db, db)) \<and>
          owner_scoped u (markTaskDone_r3 c t u) \<and>
          owner_scoped u (deleteTask_r3 c t u) \<and>
          owner_scoped u (editTask_r3 c t content u) \<and>
          owner_scoped u (\<lambda>db. (showEditForm_r3 c t u db, db)))"
  by (rule conjI [OF foreign_task_outcomes(1) [OF assms]
        conjI [OF foreign_task_outcomes(2) [OF assms] all_operations_scoped]])

theorem C1_foreign_task_untouched_witness:
  "snd (markTaskDone_r1 [] 1 ''bob'' example_db) = example_db \<and>
   snd (deleteTask_r2 [] 1 ''bob'' example_db) = example_db \<and>
   snd (editTask_r3 [] 1 ''Buy tea'' ''bob'' example_db) = example_db \<and>
   fst (markTaskDone_r1 [] 1 ''bob'' example_db) = Inr (not_found 1) \<and>
   fst (deleteTask_r2 [] 1 ''bob'' example_db) = Inr (text_reply (not_found 1)) \<and>
   fst (editTask_r3 [] 1 ''Buy tea'' ''bob'' example_db) = Inr (text_reply (not_found 1)) \<and>
   own_rows ''bob'' example_db = own_rows ''bob'' example_db2 \<and>
   example_db \<noteq> example_db2 \<and>
   fst (deleteTask_r2 [] 2 ''bob'' example_db) = fst (deleteTask_r2 [] 2 ''bob'' example_db2) \<and>
   foreign_rows ''bob'' (snd (deleteTask_r2 [] 2 ''bob'' example_db2)) = foreign_rows ''bob'' example_db2"
proof -
  let ?r = "\<lparr>col_id = 1, col_content = ''Buy milk'', col_done = False,
             col_user_id = ''ann@example.com''\<rparr>"
  have h: "distinct (map col_id (tasks example_db))" "?r \<in> set (tasks example_db)"
    "col_id ?r = 1" "col_user_id ?r = ''ann@example.com''" "''ann@example.com'' \<noteq> ''bob''"
    by (simp_all add: example_db_def)
  have n: "round_trip [] = None" by (simp add: round_trip_def)
  have o: "own_rows ''bob'' example_db = own_rows ''bob'' example_db2"
    "tasks_id_seq example_db = tasks_id_seq example_db2" "example_db \<noteq> example_db2"
    by (simp_all add: own_rows_def example_db_def example_db2_def)
  note w = C1_foreign_task_untouched [OF h, where ctx = "[]" and newContent = "''Buy tea''"
      and u = "''bob''" and c = "[]" and t = 2]
  from w have s: "owner_scoped ''bob'' (deleteTask_r2 [] 2 ''bob'')" by blast
  from s o have d: "fst (deleteTask_r2 [] 2 ''bob'' example_db) =
      fst (deleteTask_r2 [] 2 ''bob'' example_db2)"
    unfolding owner_scoped_def by blast
  from s have f: "foreign_rows ''bob'' (snd (deleteTask_r2 [] 2 ''bob'' example_db2)) =
      foreign_rows ''bob'' example_db2"
    unfolding owner_scoped_def by blast
  from w n o d f show ?thesis by simp
qed

subsection \<open>The primary key is kept\<close>

text \<open>
  The hypothesis of unique ids holds in every store that the handlers can reach from the
  empty table: each handler of each revision keeps \<open>well_formed\<close>.
\<close>

lemma snd_operations:
  "snd (addTask_r1 ctx c u db) = snd (INSERT_task ctx c u db)"
  "snd (addTask_r2 ctx c u db) = snd (INSERT_task ctx c u db)"
  "snd (addTask_r3 ctx c u db) = snd (INSERT_task ctx c u db)"
  "snd (markTaskDone_r1 ctx t u db) = snd (UPDATE_done ctx t u db)"
  "snd (markTaskDone_r2 ctx t u db) = snd (UPDATE_done ctx t u db)"
  "snd (markTaskDone_r3 ctx t u db) = snd (UPDATE_done ctx t u db)"
  "snd (deleteTask_r2 ctx t u db) = snd (DELETE_task ctx t u db)"
  "snd (deleteTask_r3 ctx t u db) = snd (DELETE_task ctx t u db)"
  "snd (editTask_r2 ctx t c u db) = (if c = [] then db else snd (UPDATE_content ctx c t u db))"
  "snd (editTask_r3 ctx t c u db) = (if c = [] then db else snd (UPDATE_content ctx c t u db))"
  by (simp_all add: addTask_r1_def addTask_r2_def addTask_r3_def markTaskDone_r1_def
      markTaskDone_r2_def markTaskDone_r3_def deleteTask_r2_def deleteTask_r3_def editTask_r2_def
      editTask_r3_def split: prod.splits sum.splits)

lemma well_formed_operations:
  assumes "well_formed db"
  shows "well_formed (snd (addTask_r1 ctx c u db))" "well_formed (snd (addTask_r2 ctx c u db))"
    "well_formed (snd (addTask_r3 ctx c u db))" "well_formed (snd (markTaskDone_r1 ctx t u db))"
    "well_formed (snd (markTaskDone_r2 ctx t u db))" "well_formed (snd (markTaskDone_r3 ctx t u db))"
    "well_formed (snd (deleteTask_r2 ctx t u db))" "well_formed (snd (deleteTask_r3 ctx t u db))"
    "well_formed (snd (editTask_r2 ctx t c u db))" "well_formed (snd (editTask_r3 ctx t c u db))"
  using assms by (simp_all add: snd_operations well_formed_kept)

lemma snd_wrap: "snd (case x of (Inl err, db') \<Rightarrow> (Inl (f err), db') | (Inr v, db') \<Rightarrow> (Inr (g v), db')) = snd x"
  by (simp split: prod.splits sum.splits)

lemma well_formed_handleCardAction:
  assumes "well_formed db"
  shows "well_formed (snd (handleCardAction_r2 ctx req db))"
    and "well_formed (snd (handleCardAction_r3 ctx req db))"
  using assms
  by (simp_all add: handleCardAction_r2_def handleCardAction_r3_def Let_def well_formed_operations
      split: option.splits prod.splits)

lemma well_formed_HandleChat:
  assumes "well_formed db"
  shows "well_formed (snd (HandleChat_r1 ctx rq db))"
    and "well_formed (snd (HandleChat_r2 ctx req db))"
    and "well_formed (snd (HandleChat_r3 ctx req db))"
proof -
  show "well_formed (snd (HandleChat_r1 ctx rq db))"
    using assms well_formed_operations(1,4) [OF assms]
    by (simp add: HandleChat_r1_classified run_r1_def wrap_text_def snd_wrap split: intent.splits sum.splits)
  show "well_formed (snd (HandleChat_r2 ctx req db))"
  proof (cases "Action req")
    case None
    then show ?thesis
      using assms well_formed_operations(2,5) [OF assms]
      by (simp add: HandleChat_r2_classified run_r2_def wrap_def snd_wrap
          split: intent.splits sum.splits)
  next
    case (Some a)
    then show ?thesis
      using well_formed_handleCardAction(1) [OF assms] by (simp add: HandleChat_r2_def)
  qed
  show "well_formed (snd (HandleChat_r3 ctx req db))"
  proof (cases "Action req")
    case None
    then show ?thesis
      using assms well_formed_operations(3,6,10) [OF assms]
      by (simp add: HandleChat_r3_classified run_r3_def wrap_def snd_wrap
          split: intent.splits sum.splits)
  next
    case (Some a)
    then show ?thesis
      using well_formed_handleCardAction(2) [OF assms] by (simp add: HandleChat_r3_def)
  qed
qed

lemma well_formed_empty: "well_formed \<lparr>tasks = [], tasks_id_seq = 1\<rparr>"
  by (simp add: well_formed_def)

end
